theory Spec2Isabelle
  imports Main
begin

section \<open>Python values used by the git-backed knowledge repository\<close>

text \<open>
  Exceptions of the source are values.  \<open>KeyboardInterrupt\<close> is the one
  constructor that is not an instance of Python's \<open>Exception\<close> class, so an
  \<^verbatim>\<open>except Exception\<close> clause lets it pass.  An \<open>OSError\<close> carries the
  name of its error number.
\<close>

datatype error =
    ValueError string
  | RuntimeError string
  | AssertionError string
  | IOError
  | OSError string
  | EOFError
  | IndexError
  | AttributeError
  | GitCommandError
  | InvalidGitRepositoryError
  | KeyboardInterrupt

definition is_Exception :: "error \<Rightarrow> bool" where
  "is_Exception e = (e \<noteq> KeyboardInterrupt)"

subsection \<open>Strings\<close>

definition startswith :: "string \<Rightarrow> string \<Rightarrow> bool" where
  "startswith s p = (take (length p) s = p)"

definition endswith :: "string \<Rightarrow> string \<Rightarrow> bool" where
  "endswith s p = (length p \<le> length s \<and> drop (length s - length p) s = p)"

text \<open>\<^verbatim>\<open>s.split(c)\<close> for a one-character separator: never the empty list.\<close>

fun split_on :: "char \<Rightarrow> string \<Rightarrow> string list" where
  "split_on c [] = [[]]"
| "split_on c (x # xs) =
     (if x = c then [] # split_on c xs
      else (case split_on c xs of [] \<Rightarrow> [[x]] | w # ws \<Rightarrow> (x # w) # ws))"

text \<open>\<^verbatim>\<open>sep.join(xs)\<close>.\<close>

fun join_with :: "string \<Rightarrow> string list \<Rightarrow> string" where
  "join_with sep [] = []"
| "join_with sep [x] = x"
| "join_with sep (x # y # ys) = x @ sep @ join_with sep (y # ys)"

definition is_space :: "char \<Rightarrow> bool" where
  "is_space c = (c \<in> set [CHR '' '', CHR 0x09, CHR 0x0A, CHR 0x0B, CHR 0x0C, CHR 0x0D])"

text \<open>\<^verbatim>\<open>s.strip()\<close>.\<close>

definition strip :: "string \<Rightarrow> string" where
  "strip s = rev (dropWhile is_space (rev (dropWhile is_space s)))"

subsection \<open>Decimal integers: \<^verbatim>\<open>str(n)\<close> and \<^verbatim>\<open>int(s)\<close>\<close>

text \<open>The decimal digits are the characters with codes 48 to 57.\<close>

definition digit_of :: "nat \<Rightarrow> char" where
  "digit_of d = ''0123456789'' ! d"

definition is_digit :: "char \<Rightarrow> bool" where
  "is_digit c = (48 \<le> (of_char c :: nat) \<and> (of_char c :: nat) \<le> 57)"

definition digit_val :: "char \<Rightarrow> nat" where
  "digit_val c = of_char c - 48"

fun str_nat :: "nat \<Rightarrow> string" where
  "str_nat n = (if n < 10 then [digit_of n] else str_nat (n div 10) @ [digit_of (n mod 10)])"

declare str_nat.simps [simp del]

definition str_int :: "int \<Rightarrow> string" where
  "str_int i = (if i < 0 then CHR ''-'' # str_nat (nat (- i)) else str_nat (nat i))"

definition digits_val :: "string \<Rightarrow> nat" where
  "digits_val ds = foldl (\<lambda>a c. 10 * a + digit_val c) 0 ds"

text \<open>
  \<^verbatim>\<open>int(s)\<close> on a byte string: surrounding whitespace is dropped, one sign is
  allowed, at least one decimal digit must follow and nothing else; anything else is
  a \<open>ValueError\<close>.
\<close>

definition py_int :: "string \<Rightarrow> error + int" where
  "py_int s =
     (let t = strip s;
          neg = (t \<noteq> [] \<and> hd t = CHR ''-'');
          ds = (if t \<noteq> [] \<and> (hd t = CHR ''-'' \<or> hd t = CHR ''+'') then tl t else t)
      in if ds \<noteq> [] \<and> list_all is_digit ds
         then Inr (if neg then - int (digits_val ds) else int (digits_val ds))
         else Inl (ValueError (''invalid literal for int() with base 10: '' @ s)))"

subsection \<open>POSIX path functions of \<^verbatim>\<open>os.path\<close>\<close>

definition path_join2 :: "string \<Rightarrow> string \<Rightarrow> string" where
  "path_join2 a b =
     (if startswith b ''/'' then b
      else if a = [] \<or> endswith a ''/'' then a @ b
      else a @ ''/'' @ b)"

text \<open>\<^verbatim>\<open>os.path.join(a, *ps)\<close>.\<close>

definition os_path_join :: "string \<Rightarrow> string list \<Rightarrow> string" where
  "os_path_join a ps = foldl path_join2 a ps"

text \<open>
  \<^verbatim>\<open>os.path.dirname(p)\<close>: everything up to the last slash, trailing slashes
  removed unless the head consists of slashes only.
\<close>

definition dirname :: "string \<Rightarrow> string" where
  "dirname p =
     (let head = rev (dropWhile (\<lambda>c. c \<noteq> CHR ''/'') (rev p))
      in if head \<noteq> [] \<and> \<not> list_all (\<lambda>c. c = CHR ''/'') head
         then rev (dropWhile (\<lambda>c. c = CHR ''/'') (rev head))
         else head)"

text \<open>The loop of \<^verbatim>\<open>os.path.normpath\<close> over the components.\<close>

fun norm_comps :: "bool \<Rightarrow> string list \<Rightarrow> string list \<Rightarrow> string list" where
  "norm_comps initial_slashes new_comps [] = new_comps"
| "norm_comps initial_slashes new_comps (c # comps) =
     (if c = [] \<or> c = ''.'' then norm_comps initial_slashes new_comps comps
      else if c \<noteq> ''..'' \<or> (\<not> initial_slashes \<and> new_comps = [])
                \<or> (new_comps \<noteq> [] \<and> last new_comps = ''..'')
           then norm_comps initial_slashes (new_comps @ [c]) comps
      else if new_comps \<noteq> [] then norm_comps initial_slashes (butlast new_comps) comps
      else norm_comps initial_slashes new_comps comps)"

definition normpath :: "string \<Rightarrow> string" where
  "normpath path =
     (if path = [] then ''.''
      else let initial_slashes = startswith path ''/'';
               lead = (if initial_slashes \<and> startswith path ''//'' \<and> \<not> startswith path ''///''
                       then ''//'' else if initial_slashes then ''/'' else []);
               p = lead @ join_with ''/'' (norm_comps initial_slashes [] (split_on CHR ''/'' path))
           in if p = [] then ''.'' else p)"

text \<open>A path as seen from the working directory \<open>cwd\<close>: itself when it is absolute.\<close>

definition from_cwd :: "string \<Rightarrow> string \<Rightarrow> string" where
  "from_cwd cwd p = (if startswith p ''/'' then p else path_join2 cwd p)"

text \<open>\<^verbatim>\<open>os.path.abspath(path)\<close> in the working directory \<open>cwd\<close>.\<close>

definition abspath :: "string \<Rightarrow> string \<Rightarrow> string" where
  "abspath cwd path = normpath (from_cwd cwd path)"

section \<open>The file system under the repository\<close>

text \<open>
  A node is addressed by the list of directory names that leads to it from the root
  (the root is the empty list and always a directory).  Paths are POSIX paths without
  symbolic links; permissions are not modelled.
\<close>

datatype node = File string | Dir

type_synonym filesystem = "string list \<Rightarrow> node option"

definition is_dir :: "filesystem \<Rightarrow> string list \<Rightarrow> bool" where
  "is_dir fs k = (k = [] \<or> fs k = Some Dir)"

definition step :: "string list \<Rightarrow> string \<Rightarrow> string list" where
  "step k c = (if c = [] \<or> c = ''.'' then k else if c = ''..'' then butlast k else k @ [c])"

text \<open>
  Path resolution as the kernel does it: every component, also an empty one or a dot,
  is looked up in a node that must be a directory.
\<close>

fun walk :: "filesystem \<Rightarrow> string list \<Rightarrow> string list \<Rightarrow> string list option" where
  "walk fs k [] = Some k"
| "walk fs k (c # cs) = (if is_dir fs k then walk fs (step k c) cs else None)"

definition namei :: "filesystem \<Rightarrow> string \<Rightarrow> string \<Rightarrow> string list option" where
  "namei fs cwd p = walk fs [] (split_on CHR ''/'' (from_cwd cwd p))"

text \<open>\<^verbatim>\<open>os.path.exists\<close>, \<^verbatim>\<open>os.path.isdir\<close>, \<^verbatim>\<open>os.path.isfile\<close>.\<close>

definition path_exists :: "filesystem \<Rightarrow> string \<Rightarrow> string \<Rightarrow> bool" where
  "path_exists fs cwd p =
     (case namei fs cwd p of None \<Rightarrow> False | Some k \<Rightarrow> k = [] \<or> fs k \<noteq> None)"

definition isdir :: "filesystem \<Rightarrow> string \<Rightarrow> string \<Rightarrow> bool" where
  "isdir fs cwd p = (case namei fs cwd p of None \<Rightarrow> False | Some k \<Rightarrow> is_dir fs k)"

definition isfile :: "filesystem \<Rightarrow> string \<Rightarrow> string \<Rightarrow> bool" where
  "isfile fs cwd p =
     (case namei fs cwd p of None \<Rightarrow> False
      | Some k \<Rightarrow> (case fs k of Some (File d) \<Rightarrow> k \<noteq> [] | _ \<Rightarrow> False))"

text \<open>\<^verbatim>\<open>open(p).read()\<close>: every failure of \<^verbatim>\<open>open\<close> is an \<open>IOError\<close>.\<close>

definition open_read :: "filesystem \<Rightarrow> string \<Rightarrow> string \<Rightarrow> error + string" where
  "open_read fs cwd p =
     (case namei fs cwd p of None \<Rightarrow> Inl IOError
      | Some k \<Rightarrow>
          if is_dir fs k then Inl IOError
          else (case fs k of Some (File d) \<Rightarrow> Inr d | _ \<Rightarrow> Inl IOError))"

text \<open>
  \<^verbatim>\<open>open(p, 'w')\<close> followed by \<^verbatim>\<open>write(data)\<close>: the parent must be a
  directory and the node itself must not be one; the file is created or truncated.
\<close>

definition open_write :: "filesystem \<Rightarrow> string \<Rightarrow> string \<Rightarrow> string \<Rightarrow> error + filesystem" where
  "open_write fs cwd p data =
     (case namei fs cwd p of None \<Rightarrow> Inl IOError
      | Some k \<Rightarrow>
          if is_dir fs k \<or> \<not> is_dir fs (butlast k) then Inl IOError
          else Inr (fs(k \<mapsto> File data)))"

text \<open>
  \<^verbatim>\<open>os.makedirs(p)\<close>: the directories on the way are created where they are
  missing, a regular file on the way is an \<open>OSError\<close>, and so is a last component
  that creates nothing (the final \<^verbatim>\<open>mkdir\<close> finds its target present), unless
  that component is a dot.  What was created before a failure stays.  The flag
  \<open>made\<close> says whether the component just passed left a new directory (or was a dot).
\<close>

fun mkwalk :: "filesystem \<Rightarrow> string list \<Rightarrow> bool \<Rightarrow> string list \<Rightarrow> error option \<times> filesystem" where
  "mkwalk fs k made [] = (if made then None else Some (OSError ''EEXIST''), fs)"
| "mkwalk fs k made (c # cs) =
     (let k' = step k c in
      if is_dir fs k' then mkwalk fs k' (c = ''.'' \<or> (c = [] \<and> made)) cs
      else if fs k' = None then mkwalk (fs(k' \<mapsto> Dir)) k' True cs
      else (Some (OSError (if cs = [] then ''EEXIST'' else ''ENOTDIR'')), fs))"

definition makedirs :: "filesystem \<Rightarrow> string \<Rightarrow> string \<Rightarrow> error option \<times> filesystem" where
  "makedirs fs cwd p = mkwalk fs [] False (split_on CHR ''/'' (from_cwd cwd p))"

text \<open>
  \<^verbatim>\<open>shutil.rmtree(p)\<close>: the directory and everything below it is removed; a path
  that is no directory is an \<open>OSError\<close>.
\<close>

definition rmtree :: "filesystem \<Rightarrow> string \<Rightarrow> string \<Rightarrow> error + filesystem" where
  "rmtree fs cwd p =
     (case namei fs cwd p of None \<Rightarrow> Inl (OSError ''ENOENT'')
      | Some k \<Rightarrow>
          if is_dir fs k then Inr (\<lambda>k'. if take (length k) k' = k then None else fs k')
          else Inl (OSError (if fs k = None then ''ENOENT'' else ''ENOTDIR'')))"

section \<open>The repository object\<close>

text \<open>
  A remote of the git handle: its name, the answer of \<^verbatim>\<open>git remote get-url\<close>
  (\<open>None\<close> when the command fails) and its refs, each a full name such as
  \<open>origin/master\<close> with the commit it points at.
\<close>

record remote =
  remote_name :: string
  remote_url :: "string option"
  remote_refs :: "(string \<times> string) list"

text \<open>
  The state of a \<open>GitKnowledgeRepository\<close>: its own attributes (\<open>_path\<close>,
  \<open>uri\<close>, \<open>auto_create\<close>, \<open>_dir_cache\<close>, absent when \<open>None\<close>), the disk, and
  what the git handle answers: the local heads with their commits, the active branch,
  the remotes, the output of \<^verbatim>\<open>git branch --no-merged master\<close>, the
  \<open>a_path\<close>s of \<open>git_diff(ref)\<close>, the commits of \<open>iter_commits(range)\<close>, the
  paths \<open>self.dir()\<close> yields (the method of the base class lists the published
  snapshot) and the pushes made so far.
\<close>

record repo =
  repo_path :: string
  repo_uri :: string
  auto_create :: bool
  dir_cache :: "string list option"
  disk :: filesystem
  cwd :: string
  branches :: "(string \<times> string) list"
  active_branch :: string
  remotes :: "remote list"
  branch_no_merged :: "error + string"
  diff_a_paths :: "string \<Rightarrow> error + string list"
  iter_commits :: "string \<Rightarrow> error + string list"
  published :: "string list"
  pushed :: "(string \<times> bool) list"

section \<open>Named references and the revision counter of a post\<close>

text \<open>The values these methods return: \<open>None\<close> or an integer.\<close>

datatype pyval = PNone | PInt int

text \<open>\<open>_kp_read_ref\<close>.\<close>

definition kp_read_ref :: "repo \<Rightarrow> string \<Rightarrow> string \<Rightarrow> error + string" where
  "kp_read_ref s path reference =
     open_read (disk s) (cwd s) (os_path_join (repo_path s) [path, reference])"

text \<open>
  \<open>_kp_write_ref\<close>; the value of \<^verbatim>\<open>f.write(data)\<close> it returns is \<open>None\<close>
  (the \<open>write\<close> of a Python 2 file object, the Python of \<^verbatim>\<open>raw_input\<close>).
\<close>

definition kp_write_ref :: "repo \<Rightarrow> string \<Rightarrow> string \<Rightarrow> string \<Rightarrow> (error + pyval) \<times> repo" where
  "kp_write_ref s path reference data =
     (let ref_path = os_path_join (repo_path s) [path, reference];
          ref_dir = dirname ref_path;
          (failed, fs1) = (if \<not> path_exists (disk s) (cwd s) ref_dir
                           then makedirs (disk s) (cwd s) ref_dir else (None, disk s))
      in case failed of
           Some e \<Rightarrow> (Inl e, s\<lparr>disk := fs1\<rparr>)
         | None \<Rightarrow>
            (case open_write fs1 (cwd s) ref_path data of
               Inl e \<Rightarrow> (Inl e, s\<lparr>disk := fs1\<rparr>)
             | Inr fs2 \<Rightarrow> (Inr PNone, s\<lparr>disk := fs2\<rparr>)))"

text \<open>\<open>_kp_has_ref\<close>.\<close>

definition kp_has_ref :: "repo \<Rightarrow> string \<Rightarrow> string \<Rightarrow> bool" where
  "kp_has_ref s path reference =
     isfile (disk s) (cwd s) (os_path_join (repo_path s) [path, reference])"

text \<open>\<open>_kp_get_revision\<close>: only an \<open>IOError\<close> is turned into revision 0.\<close>

definition kp_get_revision :: "repo \<Rightarrow> string \<Rightarrow> error + int" where
  "kp_get_revision s path =
     (case kp_read_ref s path ''REVISION'' of
        Inr d \<Rightarrow> py_int d
      | Inl e \<Rightarrow> if e = IOError then Inr 0 else Inl e)"

text \<open>\<open>_kp_new_revision\<close>: the method has no \<^verbatim>\<open>return\<close>, its value is \<open>None\<close>.\<close>

definition kp_new_revision :: "repo \<Rightarrow> string \<Rightarrow> (error + pyval) \<times> repo" where
  "kp_new_revision s path =
     (case kp_get_revision s path of
        Inl e \<Rightarrow> (Inl e, s)
      | Inr n \<Rightarrow>
         (case kp_write_ref s path ''REVISION'' (str_int (n + 1)) of
            (Inl e, s') \<Rightarrow> (Inl e, s')
          | (Inr written, s') \<Rightarrow> (Inr PNone, s')))"

section \<open>What the repository takes from its libraries\<close>

text \<open>
  A \<open>git.Head\<close> is known by its name.  A branch descriptor is what the methods accept
  where they take a branch: \<open>None\<close>, a string, a head, or any other object (kept
  as its printed form and the name of its type).
\<close>

datatype head = Head string

fun head_name :: "head \<Rightarrow> string" where
  "head_name (Head n) = n"

datatype branch_desc = BNone | BStr string | BHead head | BOther string string

text \<open>
  Behaviour of the libraries that the source calls and does not define: the expansion
  of \<open>~\<close>, the comparison \<open>!=\<close> of a head with a string (\<open>Head.__ne__\<close>), the
  TCP connection to port 22 of a host within the timeout, \<open>git.Repo(path)\<close> (the
  exception it raises, if any), the effect of checking a commit out on the working
  tree, and the seven statements of the bootstrap, each of which maps the target path
  and the disk to the disk it leaves and the exception it raises, if any.
\<close>

record binding =
  expanduser :: "string \<Rightarrow> string"
  head_ne_str :: "head \<Rightarrow> string \<Rightarrow> bool"
  connect :: "string \<Rightarrow> bool"
  open_repo :: "filesystem \<Rightarrow> string \<Rightarrow> error option"
  checkout_tree :: "string \<Rightarrow> filesystem \<Rightarrow> error + filesystem"
  repo_init_step :: "string \<Rightarrow> filesystem \<Rightarrow> error option \<times> filesystem"
  create_submodule :: "string \<Rightarrow> filesystem \<Rightarrow> error option \<times> filesystem"
  copy_config :: "string \<Rightarrow> filesystem \<Rightarrow> error option \<times> filesystem"
  copy_readme :: "string \<Rightarrow> filesystem \<Rightarrow> error option \<times> filesystem"
  index_add :: "string \<Rightarrow> filesystem \<Rightarrow> error option \<times> filesystem"
  index_commit :: "string \<Rightarrow> filesystem \<Rightarrow> error option \<times> filesystem"
  submodule_update :: "string \<Rightarrow> filesystem \<Rightarrow> error option \<times> filesystem"

text \<open>
  Modelled from the spec: the class \<open>PostStatus\<close> of the base class
  \<open>KnowledgeRepository\<close> is not among the sources; the spec names its three values.
\<close>

datatype PostStatus = DRAFT | SUBMITTED | PUBLISHED

text \<open>Python list indexing, negative indices counting from the end.\<close>

definition py_index :: "'a list \<Rightarrow> int \<Rightarrow> error + 'a" where
  "py_index xs i =
     (if 0 \<le> i \<and> i < int (length xs) then Inr (xs ! nat i)
      else if i < 0 \<and> - i \<le> int (length xs) then Inr (xs ! nat (int (length xs) + i))
      else Inl IndexError)"

text \<open>\<^verbatim>\<open>s.replace(pat, '')\<close>.\<close>

function remove_sub :: "string \<Rightarrow> string \<Rightarrow> string" where
  "remove_sub pat [] = []"
| "remove_sub pat (x # xs) =
     (if pat \<noteq> [] \<and> startswith (x # xs) pat then remove_sub pat (drop (length pat) (x # xs))
      else x # remove_sub pat xs)"
  by pat_completeness auto
termination
  by (relation "measure (\<lambda>(pat, s). length s)") auto

section \<open>Repository path: opening and bootstrap\<close>

text \<open>\<open>__is_valid_repo\<close>: only \<open>InvalidGitRepositoryError\<close> is caught.\<close>

definition is_valid_repo :: "binding \<Rightarrow> filesystem \<Rightarrow> string \<Rightarrow> error + bool" where
  "is_valid_repo B fs p =
     (case open_repo B fs p of
        None \<Rightarrow> Inr True
      | Some e \<Rightarrow> if e = InvalidGitRepositoryError then Inr False else Inl e)"

text \<open>The statements of the \<^verbatim>\<open>try\<close> block of \<open>__repo_init\<close>, in order.\<close>

definition bootstrap_steps :: "binding \<Rightarrow> (string \<Rightarrow> filesystem \<Rightarrow> error option \<times> filesystem) list" where
  "bootstrap_steps B =
     [repo_init_step B, create_submodule B, copy_config B, copy_readme B,
      index_add B, index_commit B, submodule_update B]"

text \<open>Running statements until one raises.\<close>

fun run_steps :: "(string \<Rightarrow> filesystem \<Rightarrow> error option \<times> filesystem) list \<Rightarrow> string \<Rightarrow> filesystem
    \<Rightarrow> error option \<times> filesystem" where
  "run_steps [] p fs = (None, fs)"
| "run_steps (f # fs_rest) p fs =
     (case f p fs of
        (Some e, fs') \<Rightarrow> (Some e, fs')
      | (None, fs') \<Rightarrow> run_steps fs_rest p fs')"

text \<open>
  \<open>__repo_init\<close>: an exception that is an \<open>Exception\<close> is caught, the path removed
  with \<^verbatim>\<open>shutil.rmtree\<close> (whose own exception is raised if it fails), and the
  exception raised again.
\<close>

definition repo_init :: "binding \<Rightarrow> string \<Rightarrow> string \<Rightarrow> filesystem \<Rightarrow> error option \<times> filesystem" where
  "repo_init B wd p fs =
     (case run_steps (bootstrap_steps B) p fs of
        (None, fs') \<Rightarrow> (None, fs')
      | (Some e, fs') \<Rightarrow>
          if is_Exception e then
            (case rmtree fs' wd p of
               Inl e' \<Rightarrow> (Some e', fs')
             | Inr fs'' \<Rightarrow> (Some e, fs''))
          else (Some e, fs'))"

text \<open>The setter of the property \<open>path\<close>.\<close>

definition set_path :: "binding \<Rightarrow> repo \<Rightarrow> string \<Rightarrow> (error + unit) \<times> repo" where
  "set_path B s path0 =
     (let p1 = abspath (cwd s) (expanduser B path0);
          p = (if \<not> path_exists (disk s) (cwd s) p1 then abspath (cwd s) p1 else p1);
          (raised, fs1) =
            (if \<not> path_exists (disk s) (cwd s) p1 then
               (if auto_create s then repo_init B (cwd s) p (disk s)
                else (Some (ValueError (''Provided path '' @ [CHR 0x27] @ p @ [CHR 0x27] @ '' does not exist.'')), disk s))
             else (None, disk s));
          s1 = s\<lparr>disk := fs1\<rparr>
      in case raised of
           Some e \<Rightarrow> (Inl e, s1)
         | None \<Rightarrow>
            (case is_valid_repo B fs1 p of
               Inl e \<Rightarrow> (Inl e, s1)
             | Inr False \<Rightarrow>
                 (Inl (AssertionError (''Provided path '' @ [CHR 0x27] @ p @ [CHR 0x27] @ '' is not a valid repository.'')), s1)
             | Inr True \<Rightarrow> (Inr (), s1\<lparr>repo_path := p, repo_uri := p\<rparr>)))"

text \<open>
  \<open>init\<close>, up to the assignment of the path (the configuration it loads afterwards
  is outside the storage layer): this is the operation that opens a repository or,
  with \<open>auto_create\<close>, bootstraps it.
\<close>

definition open_or_init :: "binding \<Rightarrow> repo \<Rightarrow> bool \<Rightarrow> (error + unit) \<times> repo" where
  "open_or_init B s ac = set_path B (s\<lparr>auto_create := ac\<rparr>) (remove_sub ''git://'' (repo_uri s))"

section \<open>Branches and the posts they touch\<close>

text \<open>
  The property \<open>git_local_branches\<close>: the lines of
  \<^verbatim>\<open>git branch --no-merged master\<close>, each without its asterisks and stripped.
\<close>

definition git_local_branches :: "repo \<Rightarrow> error + string list" where
  "git_local_branches s =
     (case branch_no_merged s of
        Inl e \<Rightarrow> Inl e
      | Inr out \<Rightarrow> Inr (map (\<lambda>b. strip (filter (\<lambda>c. c \<noteq> CHR ''*'') b)) (split_on CHR 0x0A out)))"

text \<open>
  The loop of \<open>__get_path_from_ref\<close>: the index and the component at which it
  breaks, or the last ones when it runs to its end.
\<close>

fun ref_loop :: "nat \<Rightarrow> string list \<Rightarrow> nat \<times> string" where
  "ref_loop i [] = (i, [])"
| "ref_loop i [r] = (i, r)"
| "ref_loop i (r # r' # rs) = (if endswith r ''.kp'' then (i, r) else ref_loop (Suc i) (r' # rs))"

definition get_path_from_ref :: "string \<Rightarrow> string option" where
  "get_path_from_ref ref =
     (let refs = split_on CHR ''/'' ref; (i, r) = ref_loop 0 refs
      in if \<not> endswith r ''.kp'' then None else Some (join_with ''/'' (take (i + 1) refs)))"

text \<open>
  \<open>git_local_posts(branches)\<close> as the list it returns: the posts changed on any of
  the branches with respect to the merge base with master, without repetition.
\<close>

fun git_local_posts :: "repo \<Rightarrow> string list \<Rightarrow> error + string list" where
  "git_local_posts s [] = Inr []"
| "git_local_posts s (branch # bs) =
     (case diff_a_paths s branch of
        Inl e \<Rightarrow> Inl e
      | Inr a_paths \<Rightarrow>
         (case git_local_posts s bs of
            Inl e \<Rightarrow> Inl e
          | Inr posts \<Rightarrow> Inr (remdups (List.map_filter get_path_from_ref a_paths @ posts))))"

text \<open>\<open>git_branch\<close>: the head a descriptor stands for.\<close>

fun git_branch :: "repo \<Rightarrow> branch_desc \<Rightarrow> error + head" where
  "git_branch s (BHead h) = Inr h"
| "git_branch s BNone = Inr (Head (active_branch s))"
| "git_branch s (BOther shown ty) =
     Inl (ValueError ([CHR 0x27] @ shown @ [CHR 0x27] @ '' of type `'' @ ty @ ''` is not a valid branch descriptor.''))"
| "git_branch s (BStr b) =
     (if b \<in> set (map fst (branches s)) then Inr (Head b)
      else Inl (ValueError (''Specified branch `'' @ b @ ''` does not exist.'')))"

text \<open>The loop of \<open>git_branch_for_post\<close> that collects the branches touching the post.\<close>

fun matching_branches :: "repo \<Rightarrow> string \<Rightarrow> string list \<Rightarrow> error + string list" where
  "matching_branches s path [] = Inr []"
| "matching_branches s path (branch # bs) =
     (case git_local_posts s [branch] of
        Inl e \<Rightarrow> Inl e
      | Inr posts \<Rightarrow>
         (case matching_branches s path bs of
            Inl e \<Rightarrow> Inl e
          | Inr found \<Rightarrow> Inr (if path \<in> set posts then branch # found else found)))"

text \<open>The test of that loop: the post is among those the branch changes.\<close>

definition touches :: "repo \<Rightarrow> string \<Rightarrow> string \<Rightarrow> bool" where
  "touches s path branch =
     (case git_local_posts s [branch] of Inl e \<Rightarrow> False | Inr posts \<Rightarrow> path \<in> set posts)"

text \<open>
  The prompt of the interactive mode: lines are read from the input until one is an
  integer; the end of the input is an \<open>EOFError\<close>.
\<close>

fun ask_index :: "string list \<Rightarrow> (error + int) \<times> string list" where
  "ask_index [] = (Inl EOFError, [])"
| "ask_index (line # rest) =
     (case py_int line of Inr n \<Rightarrow> (Inr n, rest) | Inl e \<Rightarrow> ask_index rest)"

text \<open>\<open>git_branch_for_post\<close>, with the lines of standard input and those it leaves.\<close>

definition git_branch_for_post :: "repo \<Rightarrow> string option \<Rightarrow> bool \<Rightarrow> string list
    \<Rightarrow> (error + head option) \<times> string list" where
  "git_branch_for_post s path_opt interactive inp =
     (case path_opt of
        None \<Rightarrow> (Inr None, inp)
      | Some path \<Rightarrow>
         (case git_local_branches s of
            Inl e \<Rightarrow> (Inl e, inp)
          | Inr local \<Rightarrow>
             if path \<in> set local then (map_sum id Some (git_branch s (BStr path)), inp)
             else
              (case matching_branches s path local of
                 Inl e \<Rightarrow> (Inl e, inp)
               | Inr found \<Rightarrow>
                  if length found = 0 then
                    (if path \<in> set (published s)
                     then (map_sum id Some (git_branch s (BStr ''master'')), inp)
                     else (Inr None, inp))
                  else if length found = 1 then (map_sum id Some (git_branch s (BStr (found ! 0))), inp)
                  else if interactive then
                    (case ask_index inp of
                       (Inl e, inp') \<Rightarrow> (Inl e, inp')
                     | (Inr response, inp') \<Rightarrow>
                        (case py_index found response of
                           Inl e \<Rightarrow> (Inl e, inp')
                         | Inr b \<Rightarrow> (map_sum id Some (git_branch s (BStr b)), inp')))
                  else (map_sum id Some (git_branch s (BStr (found ! 0))), inp))))"

section \<open>Remotes\<close>

text \<open>\<open>self.git.remote()\<close>: the remote named \<open>origin\<close>.\<close>

definition git_remote :: "repo \<Rightarrow> error + remote" where
  "git_remote s =
     (case find (\<lambda>r. remote_name r = ''origin'') (remotes s) of
        None \<Rightarrow> Inl (ValueError (''Remote named '' @ [CHR 0x27] @ ''origin'' @ [CHR 0x27] @ '' didn'' @ [CHR 0x27] @ ''t exist''))
      | Some r \<Rightarrow> Inr r)"

text \<open>
  A short name looked up in the refs of a remote: the list finds the ref whose full
  name is the remote's name, a slash and the short name.  This is \<open>name in refs\<close>,
  \<open>refs[name]\<close> and \<open>refs.name\<close>.
\<close>

definition refs_find :: "remote \<Rightarrow> string \<Rightarrow> (string \<times> string) option" where
  "refs_find r n = find (\<lambda>ref. fst ref = remote_name r @ ''/'' @ n) (remote_refs r)"

text \<open>The property \<open>__remote_uri\<close>.\<close>

definition remote_uri :: "repo \<Rightarrow> error + string option" where
  "remote_uri s = (case git_remote s of Inl e \<Rightarrow> Inl e | Inr r \<Rightarrow> Inr (remote_url r))"

text \<open>
  The first group of the match of \<^verbatim>\<open>.*?@(.*?):\.*?\<close> at the start of a string:
  what stands between the first \<open>@\<close> and the next colon, when neither it nor what
  precedes the \<open>@\<close> holds a newline.
\<close>

definition ssh_host :: "string \<Rightarrow> string option" where
  "ssh_host u =
     (let pre = takeWhile (\<lambda>c. c \<noteq> CHR ''@'') u;
          rest = drop (length pre + 1) u;
          h = takeWhile (\<lambda>c. c \<noteq> CHR '':'') rest
      in if length pre < length u \<and> CHR 0x0A \<notin> set pre \<and> length h < length rest \<and> CHR 0x0A \<notin> set h
         then Some h else None)"

text \<open>The property \<open>__remote_host\<close>.\<close>

definition remote_host :: "repo \<Rightarrow> error + string option" where
  "remote_host s =
     (case remote_uri s of
        Inl e \<Rightarrow> Inl e
      | Inr None \<Rightarrow> Inr None
      | Inr (Some u) \<Rightarrow> Inr (if u = [] then None else ssh_host u))"

text \<open>The property \<open>__remote_available\<close>: no host, or an empty one, counts as reachable.\<close>

definition remote_available :: "binding \<Rightarrow> repo \<Rightarrow> error + bool" where
  "remote_available B s =
     (case remote_host s of
        Inl e \<Rightarrow> Inl e
      | Inr None \<Rightarrow> Inr True
      | Inr (Some host) \<Rightarrow> Inr (if host = [] then True else connect B host))"

section \<open>Checking a branch out and preparing a post\<close>







section \<open>Submission\<close>

text \<open>\<^verbatim>\<open>'{}'.format(x)\<close> for an optional string.\<close>

definition format_opt :: "string option \<Rightarrow> string" where
  "format_opt x = (case x of None \<Rightarrow> ''None'' | Some v \<Rightarrow> v)"

text \<open>The name under which a branch descriptor is pushed.\<close>

fun desc_name :: "branch_desc \<Rightarrow> string" where
  "desc_name (BStr b) = b"
| "desc_name (BHead h) = head_name h"
| "desc_name BNone = ''None''"
| "desc_name (BOther shown ty) = shown"

text \<open>\<open>_submit\<close>; a push is recorded in \<open>pushed\<close> with the branch and the force flag.\<close>

definition submit :: "binding \<Rightarrow> repo \<Rightarrow> string option \<Rightarrow> branch_desc \<Rightarrow> bool \<Rightarrow> (error + unit) \<times> repo" where
  "submit B s path branch force =
     (if length (remotes s) = 0 then
        (Inl (RuntimeError ''No remote repositories exist into which this branch can be submitted.''), s)
      else if branch = BNone \<and> path = None then
        (Inl (ValueError ''To submit a knowledge post, a path to the post and/or a git branch must be specified.''), s)
      else
        (case (if branch = BNone then fst (git_branch_for_post s path False [])
               else Inr (Some (Head (desc_name branch)))) of
           Inl e \<Rightarrow> (Inl e, s)
         | Inr None \<Rightarrow>
             (Inl (ValueError (''It does not appear that you have any drafts in progress for '' @ [CHR 0x27]
                     @ format_opt path @ [CHR 0x27] @ ''.'')), s)
         | Inr (Some b) \<Rightarrow>
            (case remote_available B s of
               Inl e \<Rightarrow> (Inl e, s)
             | Inr False \<Rightarrow>
                (case remote_uri s of
                   Inl e \<Rightarrow> (Inl e, s)
                 | Inr u \<Rightarrow>
                    (Inl (RuntimeError (''Cannot connect to remote repository '' @ format_opt u
                            @ ''. Please check your connection, and then try again.'')), s))
             | Inr True \<Rightarrow>
                (case git_remote s of
                   Inl e \<Rightarrow> (Inl e, s)
                 | Inr r \<Rightarrow> (Inr (), s\<lparr>pushed := pushed s @ [(head_name b, force)]\<rparr>)))))"

section \<open>Existence and status of a post\<close>

text \<open>\<open>_kp_exists\<close>: the branches are searched only when the disk has no such directory.\<close>

definition kp_exists :: "repo \<Rightarrow> string \<Rightarrow> error + bool" where
  "kp_exists s path =
     (if isdir (disk s) (cwd s) (os_path_join (repo_path s) [path]) then Inr True
      else (case fst (git_branch_for_post s (Some path) False []) of
              Inl e \<Rightarrow> Inl e
            | Inr b \<Rightarrow> Inr (b \<noteq> None)))"

text \<open>
  What \<open>_kp_status\<close> hands back with \<^verbatim>\<open>return\<close>: a status, the pair of a status
  and its annotation, or an exception object.
\<close>

datatype status_value =
    Status PostStatus
  | Detailed PostStatus "string option"
  | Returned error

text \<open>
  The pair \<open>status\<close> computed for a resolved branch: published on master, submitted
  with its annotation when the remote has a ref of the branch's name, a draft
  otherwise.  \<open>behind\<close> counts the commits of the range from the branch to the remote
  ref, \<open>ahead\<close> those of the range from the remote ref to the branch.
\<close>

definition status_of_branch :: "binding \<Rightarrow> repo \<Rightarrow> string \<Rightarrow> head \<Rightarrow> error + (PostStatus \<times> string option)" where
  "status_of_branch B s path branch =
     (if head_name branch = ''master'' then Inr (PUBLISHED, None)
      else
        (case git_remote s of
           Inl e \<Rightarrow> Inl e
         | Inr r \<Rightarrow>
            (case refs_find r (head_name branch) of
               None \<Rightarrow> Inr (DRAFT, None)
             | Some ref \<Rightarrow>
                (let remote_branch = fst ref in
                 case iter_commits s (head_name branch @ ''..'' @ remote_branch) of
                   Inl e \<Rightarrow> Inl e
                 | Inr behind_commits \<Rightarrow>
                    (case iter_commits s (remote_branch @ ''..'' @ head_name branch) of
                       Inl e \<Rightarrow> Inl e
                     | Inr ahead_commits \<Rightarrow>
                        (let behind = length behind_commits; ahead = length ahead_commits in
                         Inr (SUBMITTED,
                              Some ((if behind \<noteq> 0 then '' - '' @ str_nat behind @ '' commits behind'' else [])
                                  @ (if ahead \<noteq> 0 then '' - '' @ str_nat ahead @ '' commits ahead'' else [])
                                  @ (if head_ne_str B branch path
                                     then '' [On branch: '' @ head_name branch @ '']'' else [])))))))))"

text \<open>
  \<open>_kp_status\<close>.  The cache of the published paths is filled on the first call and
  kept in the object.
\<close>

definition kp_status :: "binding \<Rightarrow> repo \<Rightarrow> string \<Rightarrow> bool \<Rightarrow> branch_desc \<Rightarrow> (error + status_value) \<times> repo" where
  "kp_status B s path detailed branch =
     (let cache = (case dir_cache s of None \<Rightarrow> published s | Some c \<Rightarrow> c);
          s1 = s\<lparr>dir_cache := Some cache\<rparr>
      in if path \<in> set cache then (Inr (Status PUBLISHED), s1)
         else
          (case (if branch = BNone then fst (git_branch_for_post s1 (Some path) False [])
                 else map_sum id Some (git_branch s1 branch)) of
             Inl e \<Rightarrow> (Inl e, s1)
           | Inr None \<Rightarrow> (Inr (Returned (ValueError (''No such post: '' @ path))), s1)
           | Inr (Some b) \<Rightarrow>
              (case status_of_branch B s1 path b of
                 Inl e \<Rightarrow> (Inl e, s1)
               | Inr status \<Rightarrow> (Inr (if detailed then Detailed (fst status) (snd status) else Status (fst status)), s1))))"

section \<open>An example repository\<close>

text \<open>
  Library behaviour for the examples: no \<open>~\<close> to expand, a head never equal to a
  string, a host that does not answer, every path a valid repository, a checkout that
  leaves the (untracked) files on the disk alone, and a bootstrap whose first
  statement creates the directory and whose other statements succeed.
\<close>

definition ex_binding :: binding where
  "ex_binding =
     \<lparr>expanduser = (\<lambda>p. p), head_ne_str = (\<lambda>h p. True), connect = (\<lambda>h. False),
      open_repo = (\<lambda>fs p. None), checkout_tree = (\<lambda>c fs. Inr fs),
      repo_init_step = (\<lambda>p fs. makedirs fs ''/'' p),
      create_submodule = (\<lambda>p fs. (None, fs)),
      copy_config = (\<lambda>p fs. (None, fs)), copy_readme = (\<lambda>p fs. (None, fs)),
      index_add = (\<lambda>p fs. (None, fs)), index_commit = (\<lambda>p fs. (None, fs)),
      submodule_update = (\<lambda>p fs. (None, fs))\<rparr>"

text \<open>
  A repository at \<open>/repo\<close> with two unmerged branches, \<open>2019/fixes\<close> and
  \<open>2020/report.kp\<close>.  Both touch the posts \<open>2020/report.kp\<close> and
  \<open>shared/notes.kp\<close>; the second branch is on the remote, two commits ahead of its
  remote ref.  \<open>intro.kp\<close> is published, and the directory \<open>new/post.kp\<close> is on the
  disk without being tracked by any branch.
\<close>

definition ex_disk :: filesystem where
  "ex_disk =
     [[''repo''] \<mapsto> Dir,
      [''repo'', ''2020''] \<mapsto> Dir,
      [''repo'', ''2020'', ''report.kp''] \<mapsto> Dir,
      [''repo'', ''new''] \<mapsto> Dir,
      [''repo'', ''new'', ''post.kp''] \<mapsto> Dir]"

definition ex_diff :: "string \<Rightarrow> error + string list" where
  "ex_diff b =
     (if b = ''2019/fixes'' then Inr [''2020/report.kp/knowledge.md'', ''shared/notes.kp/knowledge.md'']
      else if b = ''2020/report.kp'' then Inr [''2020/report.kp/knowledge.md'', ''shared/notes.kp/images/a.png'']
      else Inl GitCommandError)"

definition ex_commits :: "string \<Rightarrow> error + string list" where
  "ex_commits rng =
     (if rng = ''origin/2020/report.kp..2020/report.kp'' then Inr [''c3'', ''c2'']
      else if rng = ''2020/report.kp..origin/2020/report.kp'' then Inr []
      else Inl GitCommandError)"

definition ex_repo :: repo where
  "ex_repo =
     \<lparr>repo_path = ''/repo'', repo_uri = ''/repo'', auto_create = False, dir_cache = None,
      disk = ex_disk, cwd = ''/'',
      branches = [(''2019/fixes'', ''c4''), (''2020/report.kp'', ''c3''), (''master'', ''c0'')],
      active_branch = ''master'',
      remotes = [\<lparr>remote_name = ''origin'', remote_url = Some ''git@git.example.com:team/repo.git'',
                  remote_refs = [(''origin/2020/report.kp'', ''c1''), (''origin/master'', ''c0'')]\<rparr>],
      branch_no_merged = Inr (''  2019/fixes'' @ [CHR 0x0A] @ ''  2020/report.kp''),
      diff_a_paths = ex_diff, iter_commits = ex_commits,
      published = [''intro.kp''], pushed = []\<rparr>"

text \<open>The same libraries, except that the first statement of the bootstrap is refused
  before it creates anything, or that the submodule cannot be attached.\<close>

definition ex_binding_init_fails :: binding where
  "ex_binding_init_fails = ex_binding\<lparr>repo_init_step := (\<lambda>p fs. (Some (OSError ''EACCES''), fs))\<rparr>"

definition ex_binding_submodule_fails :: binding where
  "ex_binding_submodule_fails = ex_binding\<lparr>create_submodule := (\<lambda>p fs. (Some GitCommandError, fs))\<rparr>"

text \<open>The same libraries, with the update of the submodule interrupted from the keyboard.\<close>

definition ex_binding_interrupted :: binding where
  "ex_binding_interrupted = ex_binding\<lparr>submodule_update := (\<lambda>p fs. (Some KeyboardInterrupt, fs))\<rparr>"

text \<open>A repository object that is being opened at \<open>/srv/kr\<close>, which does not exist.\<close>

definition ex_new_repo :: repo where
  "ex_new_repo = ex_repo\<lparr>repo_uri := ''git:///srv/kr'', repo_path := []\<rparr>"

text \<open>
  The example repository later in the session: the status of a post has been asked
  once, so the cache holds the published paths of that moment, and \<open>shared/notes.kp\<close>
  has been published since (master pulled by \<open>update\<close>), while both branches are
  still unmerged.
\<close>

definition ex_repo_stale :: repo where
  "ex_repo_stale =
     ex_repo\<lparr>dir_cache := Some [''intro.kp''], published := [''intro.kp'', ''shared/notes.kp'']\<rparr>"

text \<open>The example libraries with a \<open>!=\<close> that compares the name of the head with the string.\<close>

definition ex_binding_by_name :: binding where
  "ex_binding_by_name = ex_binding\<lparr>head_ne_str := (\<lambda>h p. head_name h \<noteq> p)\<rparr>"

text \<open>The example repository with a remote given by an HTTPS address, and without remotes.\<close>

definition ex_repo_https :: repo where
  "ex_repo_https =
     ex_repo\<lparr>remotes := [\<lparr>remote_name = ''origin'',
                            remote_url = Some ''https://git.example.com/team/repo.git'',
                            remote_refs = [(''origin/2020/report.kp'', ''c1''), (''origin/master'', ''c0'')]\<rparr>]\<rparr>"

definition ex_repo_no_remote :: repo where
  "ex_repo_no_remote = ex_repo\<lparr>remotes := []\<rparr>"

section \<open>Decimal strings\<close>

lemma digit_of_props: "d < 10 \<Longrightarrow> is_digit (digit_of d) \<and> digit_val (digit_of d) = d \<and> \<not> is_space (digit_of d)"
proof -
  assume "d < 10"
  then have "d \<in> {0,1,2,3,4,5,6,7,8,9}" by auto
  then show ?thesis
    by (auto simp: digit_of_def is_digit_def digit_val_def is_space_def)
qed

lemma str_nat_digits: "list_all is_digit (str_nat n) \<and> str_nat n \<noteq> []"
proof (induction n rule: str_nat.induct)
  case (1 n)
  show ?case
  proof (cases "n < 10")
    case True
    then show ?thesis using digit_of_props[of n] by (subst str_nat.simps, subst (2) str_nat.simps) simp
  next
    case False
    then show ?thesis using 1 digit_of_props[of "n mod 10"]
      by (subst str_nat.simps, subst (2) str_nat.simps) simp
  qed
qed

lemma digits_val_snoc: "digits_val (ds @ [c]) = 10 * digits_val ds + digit_val c"
  by (simp add: digits_val_def)

lemma digits_val_str_nat: "digits_val (str_nat n) = n"
proof (induction n rule: str_nat.induct)
  case (1 n)
  show ?case
  proof (cases "n < 10")
    case True
    then show ?thesis using digit_of_props[of n]
      by (subst str_nat.simps) (simp add: digits_val_def)
  next
    case False
    then show ?thesis using 1 digit_of_props[of "n mod 10"]
      by (subst str_nat.simps) (simp add: digits_val_snoc)
  qed
qed

lemma is_digit_not_space: "is_digit c \<Longrightarrow> \<not> is_space c"
  by (auto simp: is_digit_def is_space_def)

lemma strip_id:
  assumes "s \<noteq> []" "\<not> is_space (hd s)" "\<not> is_space (last s)"
  shows "strip s = s"
proof -
  have a: "dropWhile is_space s = s" using assms by (cases s) auto
  have "rev s \<noteq> [] \<and> \<not> is_space (hd (rev s))" using assms by (simp add: hd_rev)
  then have "dropWhile is_space (rev s) = rev s" by (simp add: dropWhile_eq_self_iff)
  then show ?thesis by (simp add: strip_def a)
qed

lemma py_int_str_int: "py_int (str_int i) = Inr i"
proof -
  define n where "n = nat \<bar>i\<bar>"
  define ds where "ds = str_nat n"
  have dig: "list_all is_digit ds" "ds \<noteq> []"
    using str_nat_digits by (auto simp: ds_def)
  have hdlast: "is_digit (hd ds)" "is_digit (last ds)"
    using dig by (auto simp: list_all_iff)
  have val: "digits_val ds = n" by (simp add: ds_def digits_val_str_nat)
  have minus: "\<not> is_digit CHR ''-''" "\<not> is_space CHR ''-''" "CHR ''-'' \<noteq> CHR ''+''"
    by (auto simp: is_digit_def is_space_def)
  show ?thesis
  proof (cases "i < 0")
    case True
    then have s: "str_int i = CHR ''-'' # ds" by (simp add: str_int_def ds_def n_def abs_if)
    have "strip (CHR ''-'' # ds) = CHR ''-'' # ds"
      using dig hdlast minus by (intro strip_id) (auto simp: is_digit_not_space)
    then show ?thesis using True dig val unfolding py_int_def s
      by (simp add: Let_def n_def)
  next
    case False
    then have s: "str_int i = ds" by (simp add: str_int_def ds_def n_def abs_if)
    have st: "strip ds = ds"
      using dig hdlast by (intro strip_id) (auto simp: is_digit_not_space)
    have "hd ds \<noteq> CHR ''-''" "hd ds \<noteq> CHR ''+''"
      using hdlast by (auto simp: is_digit_def)
    then show ?thesis using False dig val unfolding py_int_def s
      by (simp add: st Let_def n_def)
  qed
qed

section \<open>Splitting and resolving paths\<close>

lemma startswith_slash: "startswith s ''/'' \<longleftrightarrow> (s \<noteq> [] \<and> hd s = CHR ''/'')"
  by (cases s) (auto simp: startswith_def)

lemma endswith_slash: "endswith s ''/'' \<longleftrightarrow> (s \<noteq> [] \<and> last s = CHR ''/'')"
  by (cases s rule: rev_cases) (auto simp: endswith_def)

lemma split_on_nonempty: "split_on c s \<noteq> []"
  by (induction s) (auto split: list.splits)

lemma split_on_no_sep: "c \<notin> set s \<Longrightarrow> split_on c s = [s]"
  by (induction s) auto

lemma split_on_append_sep: "split_on c (a @ c # b) = split_on c a @ split_on c b"
proof (induction a)
  case Nil
  show ?case by simp
next
  case (Cons x a)
  obtain w ws where w: "split_on c a = w # ws"
    using split_on_nonempty[of c a] by (cases "split_on c a") auto
  show ?case using Cons w by (auto split: list.splits)
qed

lemma split_on_append_no_sep:
  "c \<notin> set b \<Longrightarrow> split_on c (a @ b) = butlast (split_on c a) @ [last (split_on c a) @ b]"
proof (induction a)
  case Nil
  then show ?case by (simp add: split_on_no_sep)
next
  case (Cons x a)
  obtain w ws where w: "split_on c a = w # ws"
    using split_on_nonempty[of c a] by (cases "split_on c a") auto
  obtain w' ws' where w': "split_on c (a @ b) = w' # ws'"
    using split_on_nonempty[of c "a @ b"] by (cases "split_on c (a @ b)") auto
  show ?case using Cons w w' by (auto split: list.splits if_splits)
qed

lemma split_on_replicate: "split_on c (replicate n c) = replicate (Suc n) []"
  by (induction n) auto

lemma split_on_append_seps: "split_on c (a @ replicate n c) = split_on c a @ replicate n []"
proof (cases n)
  case 0
  then show ?thesis by simp
next
  case (Suc m)
  have "split_on c (a @ c # replicate m c) = split_on c a @ split_on c (replicate m c)"
    by (rule split_on_append_sep)
  then show ?thesis using Suc by (simp add: split_on_replicate)
qed

lemma last_split_on_sep: "s = [] \<or> last s = c \<Longrightarrow> last (split_on c s) = []"
proof (cases s rule: rev_cases)
  case Nil
  then show ?thesis by simp
next
  case (snoc ys y)
  assume "s = [] \<or> last s = c"
  with snoc have "y = c" by simp
  with snoc have "split_on c s = split_on c ys @ split_on c []"
    using split_on_append_sep[of c ys "[]"] by simp
  then show ?thesis by simp
qed

lemma walk_append:
  "walk fs k (xs @ ys) = (case walk fs k xs of None \<Rightarrow> None | Some k1 \<Rightarrow> walk fs k1 ys)"
  by (induction xs arbitrary: k) auto

lemma walk_snoc_Some:
  "walk fs k (xs @ [c]) = Some k' \<Longrightarrow> \<exists>k1. walk fs k xs = Some k1 \<and> is_dir fs k1"
  by (auto simp: walk_append split: option.splits if_splits)

lemma walk_empties: "is_dir fs k \<Longrightarrow> walk fs k (replicate n []) = Some k"
  by (induction n) (auto simp: step_def)

lemma walk_empties_Some: "walk fs k (replicate n []) = Some k1 \<Longrightarrow> k1 = k"
  by (induction n) (auto simp: step_def split: if_splits)

lemma path_join2_relative:
  "\<not> startswith p ''/'' \<Longrightarrow>
   path_join2 wd p = (if wd = [] \<or> endswith wd ''/'' then wd else wd @ ''/'') @ p"
  by (simp add: path_join2_def)

lemma dirname_no_slash: "CHR ''/'' \<notin> set p \<Longrightarrow> dirname p = []"
proof -
  assume "CHR ''/'' \<notin> set p"
  then have "dropWhile (\<lambda>c. c \<noteq> CHR ''/'') (rev p) = []" by (auto simp: dropWhile_eq_Nil_conv)
  then show ?thesis by (simp add: dirname_def)
qed

lemma last_slash_split:
  assumes "CHR ''/'' \<in> set p"
  obtains h t where "p = h @ CHR ''/'' # t" "CHR ''/'' \<notin> set t"
    "rev (dropWhile (\<lambda>c. c \<noteq> CHR ''/'') (rev p)) = h @ ''/''"
proof -
  from assms obtain h t where ht: "p = h @ CHR ''/'' # t" "CHR ''/'' \<notin> set t"
    by (meson split_list_last)
  have "dropWhile (\<lambda>c. c \<noteq> CHR ''/'') (rev t @ CHR ''/'' # rev h) = CHR ''/'' # rev h"
    using ht(2) by (subst dropWhile_append2) auto
  then have "rev (dropWhile (\<lambda>c. c \<noteq> CHR ''/'') (rev p)) = h @ ''/''"
    using ht(1) by simp
  with ht show ?thesis using that by blast
qed

lemma takeWhile_eq_replicate: "takeWhile (\<lambda>c. c = x) ys = replicate (length (takeWhile (\<lambda>c. c = x) ys)) x"
  by (induction ys) auto

lemma rstrip_decompose:
  "\<exists>n. h = rev (dropWhile (\<lambda>c. c = x) (rev h)) @ replicate n x"
proof -
  define m where "m = length (takeWhile (\<lambda>c. c = x) (rev h))"
  have tw: "takeWhile (\<lambda>c. c = x) (rev h) = replicate m x"
    unfolding m_def by (rule takeWhile_eq_replicate)
  have "rev (rev h) = rev (takeWhile (\<lambda>c. c = x) (rev h) @ dropWhile (\<lambda>c. c = x) (rev h))"
    by simp
  then have "h = rev (dropWhile (\<lambda>c. c = x) (rev h)) @ rev (replicate m x)"
    unfolding tw[symmetric] by (simp only: rev_append rev_rev_ident)
  then have "h = rev (dropWhile (\<lambda>c. c = x) (rev h)) @ replicate m x" by simp
  then show ?thesis by (rule exI)
qed

lemma rstrip_head:
  assumes "\<not> list_all (\<lambda>c. c = x) h"
  shows "rev (dropWhile (\<lambda>c. c = x) (rev h)) \<noteq> [] \<and> hd (rev (dropWhile (\<lambda>c. c = x) (rev h))) = hd h"
proof -
  define h' where "h' = rev (dropWhile (\<lambda>c. c = x) (rev h))"
  obtain n where n: "h = h' @ replicate n x"
    using rstrip_decompose[of h x] unfolding h'_def by blast
  have ne: "h' \<noteq> []"
  proof
    assume "h' = []"
    with n have "h = replicate n x" by simp
    then have "set h \<subseteq> {x}" by (metis set_replicate_conv_if empty_subsetI subset_refl)
    then have "list_all (\<lambda>c. c = x) h" by (auto simp: list_all_iff)
    with assms show False by simp
  qed
  have "hd h = hd h'" using n ne by (subst n) simp
  with ne show ?thesis unfolding h'_def by simp
qed

lemma dirname_resolves:
  assumes "namei fs wd p = Some k"
  shows "\<exists>k0. namei fs wd (dirname p) = Some k0 \<and> is_dir fs k0"
proof -
  define W where "W = (if wd = [] \<or> endswith wd ''/'' then wd else wd @ ''/'')"
  have W_last: "W = [] \<or> last W = CHR ''/''"
    by (auto simp: W_def endswith_slash)
  have rel: "from_cwd wd q = W @ q" if "\<not> startswith q ''/''" for q
    using that by (simp add: from_cwd_def path_join2_relative W_def)
  have abs: "from_cwd wd q = q" if "startswith q ''/''" for q
    using that by (simp add: from_cwd_def)
  from assms have wk: "walk fs [] (split_on CHR ''/'' (from_cwd wd p)) = Some k"
    by (simp add: namei_def)
  show ?thesis
  proof (cases "CHR ''/'' \<in> set p")
    case False
    then have d: "dirname p = []" by (rule dirname_no_slash)
    from False have "\<not> startswith p ''/''" by (cases p) (auto simp: startswith_slash)
    then have "from_cwd wd p = W @ p" by (rule rel)
    then have "split_on CHR ''/'' (from_cwd wd p)
        = butlast (split_on CHR ''/'' W) @ [last (split_on CHR ''/'' W) @ p]"
      using False by (simp add: split_on_append_no_sep)
    with wk obtain k1 where k1: "walk fs [] (butlast (split_on CHR ''/'' W)) = Some k1" "is_dir fs k1"
      using walk_snoc_Some by metis
    have "split_on CHR ''/'' W = butlast (split_on CHR ''/'' W) @ [[]]"
      using last_split_on_sep[OF W_last] split_on_nonempty[of "CHR ''/''" W]
      by (metis append_butlast_last_id)
    then have "walk fs [] (split_on CHR ''/'' W) = walk fs k1 [[]]"
      using k1(1) by (metis walk_append option.simps(5))
    then have "walk fs [] (split_on CHR ''/'' W) = Some k1"
      using k1(2) by (simp add: step_def)
    moreover have "from_cwd wd [] = W" using rel[of "[]"] by (simp add: startswith_def)
    ultimately show ?thesis using k1(2) d by (auto simp: namei_def)
  next
    case True
    then obtain h t where ht: "p = h @ CHR ''/'' # t" "CHR ''/'' \<notin> set t"
      "rev (dropWhile (\<lambda>c. c \<noteq> CHR ''/'') (rev p)) = h @ ''/''"
      by (rule last_slash_split)
    show ?thesis
    proof (cases "list_all (\<lambda>c. c = CHR ''/'') h")
      case True
      then have d: "dirname p = h @ ''/''" using ht(3) by (simp add: dirname_def)
      have "hd (h @ ''/'') = CHR ''/''" using True by (cases h) auto
      then have sp: "startswith p ''/''" and sd: "startswith (h @ ''/'') ''/''"
        using ht(1) by (cases h; auto simp: startswith_slash)+
      have "split_on CHR ''/'' (from_cwd wd p) = split_on CHR ''/'' h @ [t]"
        using abs[OF sp] ht(1,2) by (simp add: split_on_append_sep split_on_no_sep)
      with wk obtain k1 where k1: "walk fs [] (split_on CHR ''/'' h) = Some k1" "is_dir fs k1"
        using walk_snoc_Some by metis
      have "split_on CHR ''/'' (from_cwd wd (h @ ''/'')) = split_on CHR ''/'' h @ [[]]"
        using abs[OF sd] split_on_append_sep[of "CHR ''/''" h "[]"] by simp
      then have "walk fs [] (split_on CHR ''/'' (from_cwd wd (h @ ''/''))) = Some k1"
        using k1 by (simp add: walk_append step_def)
      then show ?thesis using k1(2) d by (auto simp: namei_def)
    next
      case False
      define h' where "h' = rev (dropWhile (\<lambda>c. c = CHR ''/'') (rev h))"
      have d: "dirname p = h'" using ht(3) False by (simp add: dirname_def h'_def)
      obtain n where n: "h = h' @ replicate n CHR ''/''"
        using rstrip_decompose[of h "CHR ''/''"] unfolding h'_def by blast
      have h'_props: "h' \<noteq> []" "hd h' = hd h"
        using rstrip_head[OF False] unfolding h'_def by auto
      have hne: "h \<noteq> []" using False by auto
      have same: "startswith p ''/'' = startswith h' ''/''"
        using ht(1) hne h'_props by (auto simp: startswith_slash)
      define X where "X = (if startswith p ''/'' then [] else W)"
      have fp: "from_cwd wd p = X @ p" and fd: "from_cwd wd h' = X @ h'"
        using rel[of p] abs[of p] rel[of h'] abs[of h'] same by (auto simp: X_def)
      have "X @ p = ((X @ h') @ replicate n CHR ''/'') @ CHR ''/'' # t"
        using ht(1) n by simp
      then have "split_on CHR ''/'' (X @ p)
          = (split_on CHR ''/'' (X @ h') @ replicate n []) @ [t]"
        using split_on_no_sep[OF ht(2)] by (simp only: split_on_append_sep split_on_append_seps)
      with wk fp obtain k1 where
        k1: "walk fs [] (split_on CHR ''/'' (X @ h') @ replicate n []) = Some k1" "is_dir fs k1"
        using walk_snoc_Some by metis
      then obtain k2 where k2: "walk fs [] (split_on CHR ''/'' (X @ h')) = Some k2"
          "walk fs k2 (replicate n []) = Some k1"
        by (auto simp: walk_append split: option.splits)
      then have "k1 = k2" using walk_empties_Some by blast
      then show ?thesis using k1(2) k2(1) d fd by (auto simp: namei_def)
    qed
  qed
qed

section \<open>Properties of the file system\<close>

lemma walk_cong: "(\<And>k. is_dir fs' k = is_dir fs k) \<Longrightarrow> walk fs' k cs = walk fs k cs"
  by (induction cs arbitrary: k) auto

lemma is_dir_write: "\<not> is_dir fs k \<Longrightarrow> is_dir (fs(k \<mapsto> File d)) k' = is_dir fs k'"
  by (auto simp: is_dir_def)

lemma namei_write: "\<not> is_dir fs k \<Longrightarrow> namei (fs(k \<mapsto> File d)) wd p = namei fs wd p"
  unfolding namei_def by (rule walk_cong) (rule is_dir_write)

lemma open_write_read:
  assumes "open_write fs wd p d = Inr fs'"
  shows "open_read fs' wd p = Inr d"
proof -
  from assms obtain k where k: "namei fs wd p = Some k" "\<not> is_dir fs k" "fs' = fs(k \<mapsto> File d)"
    by (auto simp: open_write_def split: option.splits if_splits)
  have "namei fs' wd p = Some k" using k by (simp add: namei_write)
  moreover have "\<not> is_dir fs' k" using k by (simp add: is_dir_def)
  ultimately show ?thesis using k by (simp add: open_read_def)
qed

section \<open>Named references\<close>

lemma write_ref_read_ref_back:
  "kp_write_ref s path reference data = (Inr v, s') \<Longrightarrow> kp_read_ref s' path reference = Inr data"
  by (auto simp: kp_write_ref_def kp_read_ref_def Let_def open_write_read
           split: prod.splits option.splits sum.splits)

text \<open>
  Claim C8.  For every document path, reference name and data: when \<open>_kp_write_ref\<close>
  returns normally, \<open>_kp_read_ref\<close> on the state it leaves, for the same path and
  reference, returns exactly the data written.
\<close>

theorem write_ref_read_ref_roundtrip:
  "kp_write_ref s path reference data = (Inr v, s') \<Longrightarrow> kp_read_ref s' path reference = Inr data"
  by (rule write_ref_read_ref_back)

theorem write_ref_read_ref_roundtrip_witness:
  "kp_read_ref (snd (kp_write_ref ex_repo ''2020/report.kp'' ''images/plot.png'' ''PNG-bytes''))
     ''2020/report.kp'' ''images/plot.png'' = Inr ''PNG-bytes''"
proof -
  have "fst (kp_write_ref ex_repo ''2020/report.kp'' ''images/plot.png'' ''PNG-bytes'') = Inr PNone"
    by code_simp
  then have "kp_write_ref ex_repo ''2020/report.kp'' ''images/plot.png'' ''PNG-bytes''
     = (Inr PNone, snd (kp_write_ref ex_repo ''2020/report.kp'' ''images/plot.png'' ''PNG-bytes''))"
    by (metis prod.collapse)
  then show ?thesis by (rule write_ref_read_ref_roundtrip)
qed

section \<open>The revision counter\<close>

lemma write_ref_success:
  assumes "kp_write_ref s path r d = (Inr v, s')"
  obtains fs1 k where
    "namei fs1 (cwd s) (os_path_join (repo_path s) [path, r]) = Some k"
    "\<not> is_dir fs1 k" "is_dir fs1 (butlast k)"
    "s' = s\<lparr>disk := fs1(k \<mapsto> File d)\<rparr>" "v = PNone"
  using assms
  by (auto simp: kp_write_ref_def Let_def open_write_def
           split: prod.splits option.splits sum.splits if_splits)

lemma write_ref_again:
  assumes "kp_write_ref s path r d = (Inr v, s')"
  shows "\<exists>s''. kp_write_ref s' path r d' = (Inr PNone, s'')"
proof -
  define p where "p = os_path_join (repo_path s) [path, r]"
  from assms obtain fs1 k where k: "namei fs1 (cwd s) p = Some k"
    "\<not> is_dir fs1 k" "is_dir fs1 (butlast k)" "s' = s\<lparr>disk := fs1(k \<mapsto> File d)\<rparr>"
    unfolding p_def by (rule write_ref_success)
  define fs2 where "fs2 = fs1(k \<mapsto> File d)"
  have n2: "namei fs2 (cwd s) p = Some k" using k by (simp add: fs2_def namei_write)
  then obtain k0 where k0: "namei fs2 (cwd s) (dirname p) = Some k0" "is_dir fs2 k0"
    using dirname_resolves by blast
  then have ex: "path_exists fs2 (cwd s) (dirname p)"
    by (auto simp: path_exists_def is_dir_def)
  have nd: "\<not> is_dir fs2 k" using k(2) by (simp add: fs2_def is_dir_def)
  have pd: "is_dir fs2 (butlast k)" using k(2,3) by (simp add: fs2_def is_dir_write)
  have "open_write fs2 (cwd s) p d' = Inr (fs2(k \<mapsto> File d'))"
    using n2 nd pd by (simp add: open_write_def)
  then show ?thesis using ex k(4)
    by (simp add: kp_write_ref_def Let_def p_def[symmetric] fs2_def[symmetric])
qed

lemma no_ref_revision_0: "\<not> kp_has_ref s path ''REVISION'' \<Longrightarrow> kp_get_revision s path = Inr 0"
  by (auto simp: kp_has_ref_def kp_get_revision_def kp_read_ref_def isfile_def open_read_def is_dir_def
           split: option.splits node.splits sum.splits)

lemma new_revision_step:
  assumes "kp_get_revision s path = Inr n" "kp_new_revision s path = (Inr v, s1)"
  shows "v = PNone \<and> kp_read_ref s1 path ''REVISION'' = Inr (str_int (n + 1))
       \<and> kp_get_revision s1 path = Inr (n + 1)
       \<and> (\<exists>s2. kp_new_revision s1 path = (Inr PNone, s2))"
proof -
  from assms obtain w where w: "kp_write_ref s path ''REVISION'' (str_int (n + 1)) = (Inr w, s1)" and v: "v = PNone"
    by (auto simp: kp_new_revision_def split: prod.splits sum.splits)
  have r: "kp_read_ref s1 path ''REVISION'' = Inr (str_int (n + 1))"
    using w by (rule write_ref_read_ref_back)
  then have g: "kp_get_revision s1 path = Inr (n + 1)"
    by (simp add: kp_get_revision_def py_int_str_int)
  obtain s2 where "kp_write_ref s1 path ''REVISION'' (str_int (n + 1 + 1)) = (Inr PNone, s2)"
    using write_ref_again[OF w] by blast
  then have "kp_new_revision s1 path = (Inr PNone, s2)"
    using g by (simp add: kp_new_revision_def)
  with v r g show ?thesis by blast
qed

text \<open>
  Claim C7, as amended.  With no \<open>REVISION\<close> file the current revision is 0.  When
  \<open>_kp_new_revision\<close> returns, it returns \<open>None\<close> (not an integer), the file holds
  the decimal form of the current revision plus one, and the revision read back is
  the current one plus one; a second call then returns as well and leaves the current
  revision plus two.
\<close>

theorem new_revision_increments:
  "(\<not> kp_has_ref s path ''REVISION'' \<longrightarrow> kp_get_revision s path = Inr 0) \<and>
   (kp_get_revision s path = Inr n \<and> kp_new_revision s path = (Inr v, s1) \<longrightarrow>
      v = PNone \<and> kp_read_ref s1 path ''REVISION'' = Inr (str_int (n + 1))
      \<and> kp_get_revision s1 path = Inr (n + 1)
      \<and> (\<exists>s2. kp_new_revision s1 path = (Inr PNone, s2) \<and> kp_get_revision s2 path = Inr (n + 2)))"
proof (intro conjI impI)
  assume "\<not> kp_has_ref s path ''REVISION''"
  then show "kp_get_revision s path = Inr 0" by (rule no_ref_revision_0)
next
  assume a: "kp_get_revision s path = Inr n \<and> kp_new_revision s path = (Inr v, s1)"
  then have 1: "v = PNone \<and> kp_read_ref s1 path ''REVISION'' = Inr (str_int (n + 1))
       \<and> kp_get_revision s1 path = Inr (n + 1)
       \<and> (\<exists>s2. kp_new_revision s1 path = (Inr PNone, s2))"
    using new_revision_step by blast
  then obtain s2 where s2: "kp_new_revision s1 path = (Inr PNone, s2)" by blast
  have "kp_get_revision s2 path = Inr (n + 1 + 1)"
    using new_revision_step[of s1 path "n + 1" PNone s2] 1 s2 by blast
  then have "kp_new_revision s1 path = (Inr PNone, s2) \<and> kp_get_revision s2 path = Inr (n + 2)"
    using s2 by simp
  then show "v = PNone" "kp_read_ref s1 path ''REVISION'' = Inr (str_int (n + 1))"
    "kp_get_revision s1 path = Inr (n + 1)"
    "\<exists>s2. kp_new_revision s1 path = (Inr PNone, s2) \<and> kp_get_revision s2 path = Inr (n + 2)"
    using 1 by blast+
qed

text \<open>
  On the example repository, where the post has no \<open>REVISION\<close> file: the revision
  is 0, then 1 after the first call and 2 after the second.
\<close>

theorem new_revision_increments_witness:
  "kp_get_revision ex_repo ''2020/report.kp'' = Inr 0 \<and>
   fst (kp_new_revision ex_repo ''2020/report.kp'') = Inr PNone \<and>
   kp_get_revision (snd (kp_new_revision ex_repo ''2020/report.kp'')) ''2020/report.kp'' = Inr 1 \<and>
   (\<exists>s2. kp_new_revision (snd (kp_new_revision ex_repo ''2020/report.kp'')) ''2020/report.kp'' = (Inr PNone, s2)
         \<and> kp_get_revision s2 ''2020/report.kp'' = Inr 2)"
proof -
  have absent: "\<not> kp_has_ref ex_repo ''2020/report.kp'' ''REVISION''" by code_simp
  have g0: "kp_get_revision ex_repo ''2020/report.kp'' = Inr 0"
    using new_revision_increments[of ex_repo "''2020/report.kp''"] absent by blast
  have f1: "fst (kp_new_revision ex_repo ''2020/report.kp'') = Inr PNone" by code_simp
  then have run: "kp_new_revision ex_repo ''2020/report.kp''
      = (Inr PNone, snd (kp_new_revision ex_repo ''2020/report.kp''))"
    by (metis prod.collapse)
  show ?thesis
    using new_revision_increments[of ex_repo "''2020/report.kp''" 0 PNone
        "snd (kp_new_revision ex_repo ''2020/report.kp'')"] g0 run f1
    by simp
qed

text \<open>
  Claim C7 as stated fails: on the example repository the call returns \<open>None\<close>, no
  integer.
\<close>

theorem new_revision_returns_int_counterexample:
  "\<not> (\<exists>n. fst (kp_new_revision ex_repo ''2020/report.kp'') = Inr (PInt n))"
proof -
  have "fst (kp_new_revision ex_repo ''2020/report.kp'') = Inr PNone" by code_simp
  then show ?thesis by simp
qed

section \<open>Status of a post\<close>

lemma git_local_branches_dir_cache [simp]:
  "git_local_branches (s\<lparr>dir_cache := c\<rparr>) = git_local_branches s"
  by (simp add: git_local_branches_def)

lemma git_local_posts_dir_cache [simp]:
  "git_local_posts (s\<lparr>dir_cache := c\<rparr>) bs = git_local_posts s bs"
  by (induction bs) (auto split: sum.splits)

lemma matching_branches_dir_cache [simp]:
  "matching_branches (s\<lparr>dir_cache := c\<rparr>) path bs = matching_branches s path bs"
  by (induction bs) (auto simp del: git_local_posts.simps split: sum.splits)

lemma git_branch_dir_cache [simp]: "git_branch (s\<lparr>dir_cache := c\<rparr>) d = git_branch s d"
  by (cases d) auto

lemma git_branch_for_post_dir_cache [simp]:
  "git_branch_for_post (s\<lparr>dir_cache := c\<rparr>) p i inp = git_branch_for_post s p i inp"
  by (simp add: git_branch_for_post_def cong: option.case_cong sum.case_cong prod.case_cong if_cong)

lemma git_remote_dir_cache [simp]: "git_remote (s\<lparr>dir_cache := c\<rparr>) = git_remote s"
  by (simp add: git_remote_def)

lemma status_of_branch_dir_cache [simp]:
  "status_of_branch B (s\<lparr>dir_cache := c\<rparr>) path b = status_of_branch B s path b"
  by (simp add: status_of_branch_def cong: option.case_cong sum.case_cong if_cong)

lemma kp_status_cached:
  "path \<in> set (case dir_cache s of None \<Rightarrow> published s | Some c \<Rightarrow> c) \<Longrightarrow>
   fst (kp_status B s path detailed branch) = Inr (Status PUBLISHED)"
  by (simp add: kp_status_def Let_def)

lemma kp_status_cache_after:
  "dir_cache (snd (kp_status B s path detailed branch))
     = Some (case dir_cache s of None \<Rightarrow> published s | Some c \<Rightarrow> c)"
  by (simp add: kp_status_def Let_def split: sum.splits option.splits)

lemma kp_status_no_branch:
  assumes "path \<notin> set (case dir_cache s of None \<Rightarrow> published s | Some c \<Rightarrow> c)"
    and "fst (git_branch_for_post s (Some path) False []) = Inr None"
  shows "fst (kp_status B s path detailed BNone) = Inr (Returned (ValueError (''No such post: '' @ path)))"
  using assms by (simp add: kp_status_def Let_def)

text \<open>
  Claim C5, as amended.  For every path that \<open>self.dir()\<close> lists in the published
  snapshot, \<open>_kp_status\<close> returns \<open>PUBLISHED\<close>, whatever the branches, the active
  branch, the remotes, the \<open>branch\<close> and \<open>detailed\<close> arguments are, provided that
  the object's cache of the published paths is not filled yet or holds that snapshot;
  the call leaves the cache holding the snapshot.
\<close>

theorem published_status:
  assumes "path \<in> set (published s)" and "dir_cache s = None \<or> dir_cache s = Some (published s)"
  shows "fst (kp_status B s path detailed branch) = Inr (Status PUBLISHED)
       \<and> dir_cache (snd (kp_status B s path detailed branch)) = Some (published s)
       \<and> published (snd (kp_status B s path detailed branch)) = published s"
proof -
  have c: "(case dir_cache s of None \<Rightarrow> published s | Some c \<Rightarrow> c) = published s"
    using assms(2) by auto
  have "published (snd (kp_status B s path detailed branch)) = published s"
    by (simp add: kp_status_def Let_def split: sum.splits option.splits)
  then show ?thesis using kp_status_cached[of path s B detailed branch] assms(1) c
    by (simp add: kp_status_cache_after)
qed

text \<open>The published post of the example repository, asked with a branch that does not exist.\<close>

theorem published_status_witness:
  "fst (kp_status ex_binding ex_repo ''intro.kp'' True (BStr ''no-such-branch'')) = Inr (Status PUBLISHED)
   \<and> dir_cache (snd (kp_status ex_binding ex_repo ''intro.kp'' True (BStr ''no-such-branch''))) = Some [''intro.kp'']"
proof -
  have 1: "''intro.kp'' \<in> set (published ex_repo)" by (simp add: ex_repo_def)
  have 2: "dir_cache ex_repo = None \<or> dir_cache ex_repo = Some (published ex_repo)"
    by (simp add: ex_repo_def)
  have 3: "published ex_repo = [''intro.kp'']" by (simp add: ex_repo_def)
  show ?thesis using published_status[OF 1 2, of ex_binding True "BStr ''no-such-branch''"] 3 by simp
qed

text \<open>
  Claim C5 as stated fails.  Once the cache is filled it is never refreshed: in the
  later state of the example repository \<open>shared/notes.kp\<close> is in the published
  snapshot and not in the cache, a branch that is not on the remote touches it, and
  its status is \<open>DRAFT\<close>.
\<close>

theorem published_status_counterexample:
  "''shared/notes.kp'' \<in> set (published ex_repo_stale)
   \<and> fst (kp_status ex_binding ex_repo_stale ''shared/notes.kp'' False BNone) = Inr (Status DRAFT)"
  by code_simp

text \<open>
  Claim C1 fails on the code.  The post \<open>missing.kp\<close> of the example repository is not
  published and no branch owns it, and \<open>_kp_status\<close> does not raise: it returns
  normally, and the value it returns is the \<open>ValueError\<close> object.
\<close>

theorem status_of_missing_post_returns_error_object:
  "''missing.kp'' \<notin> set (published ex_repo)
   \<and> fst (git_branch_for_post ex_repo (Some ''missing.kp'') False []) = Inr None
   \<and> fst (kp_status ex_binding ex_repo ''missing.kp'' False BNone)
       = Inr (Returned (ValueError ''No such post: missing.kp''))
   \<and> fst (kp_status ex_binding ex_repo ''missing.kp'' True BNone)
       = Inr (Returned (ValueError ''No such post: missing.kp''))"
  by code_simp

lemma str_nat_2: "str_nat 2 = ''2''"
  by (simp add: str_nat.simps digit_of_def)

lemma kp_status_resolved:
  assumes "path \<notin> set (case dir_cache s of None \<Rightarrow> published s | Some c \<Rightarrow> c)"
    and "fst (git_branch_for_post s (Some path) False []) = Inr (Some b)"
    and "status_of_branch B s path b = Inr st"
  shows "fst (kp_status B s path detailed BNone)
     = Inr (if detailed then Detailed (fst st) (snd st) else Status (fst st))"
  using assms by (simp add: kp_status_def Let_def)

text \<open>
  Claim C6, as amended.  For a post that is not in the cache of published paths and
  whose owning branch is not master and has a ref of its name on the remote
  \<open>origin\<close>, \<open>_kp_status\<close> with \<open>detailed=True\<close> returns \<open>SUBMITTED\<close> with an
  annotation that starts with the number of commits behind (the commits of the range
  from the branch to the remote ref) when it is not zero, followed by the number of
  commits ahead (the commits of the range from the remote ref to the branch) when it
  is not zero, each introduced by a space, a dash and a space.  With two commits ahead
  and none behind the annotation starts with \<open>" - 2 commits ahead"\<close>.  What follows is
  nothing or the note of the branch; when the note is there is not stated here.
\<close>

theorem submitted_annotation:
  assumes "path \<notin> set (case dir_cache s of None \<Rightarrow> published s | Some c \<Rightarrow> c)"
    and "fst (git_branch_for_post s (Some path) False []) = Inr (Some b)"
    and "head_name b \<noteq> ''master''"
    and "git_remote s = Inr r" and "refs_find r (head_name b) = Some ref"
    and "iter_commits s (fst ref @ ''..'' @ head_name b) = Inr ahead"
    and "iter_commits s (head_name b @ ''..'' @ fst ref) = Inr behind"
  shows "(\<exists>branch_note. fst (kp_status B s path True BNone)
           = Inr (Detailed SUBMITTED (Some (
                (if length behind \<noteq> 0 then '' - '' @ str_nat (length behind) @ '' commits behind'' else [])
              @ (if length ahead \<noteq> 0 then '' - '' @ str_nat (length ahead) @ '' commits ahead'' else [])
              @ branch_note)))
           \<and> (branch_note = [] \<or> branch_note = '' [On branch: '' @ head_name b @ '']''))
       \<and> (length ahead = 2 \<and> length behind = 0 \<longrightarrow>
            (\<exists>branch_note. fst (kp_status B s path True BNone)
                = Inr (Detailed SUBMITTED (Some ('' - 2 commits ahead'' @ branch_note)))
              \<and> (branch_note = [] \<or> branch_note = '' [On branch: '' @ head_name b @ '']'')))"
proof -
  define branch_note where
    "branch_note = (if head_ne_str B b path then '' [On branch: '' @ head_name b @ '']'' else [])"
  have nt: "branch_note = [] \<or> branch_note = '' [On branch: '' @ head_name b @ '']''"
    by (simp add: branch_note_def)
  have st: "status_of_branch B s path b = Inr (SUBMITTED, Some (
                (if length behind \<noteq> 0 then '' - '' @ str_nat (length behind) @ '' commits behind'' else [])
              @ (if length ahead \<noteq> 0 then '' - '' @ str_nat (length ahead) @ '' commits ahead'' else [])
              @ branch_note))"
    using assms(3-7) by (simp add: status_of_branch_def Let_def branch_note_def)
  have g: "fst (kp_status B s path True BNone)
           = Inr (Detailed SUBMITTED (Some (
                (if length behind \<noteq> 0 then '' - '' @ str_nat (length behind) @ '' commits behind'' else [])
              @ (if length ahead \<noteq> 0 then '' - '' @ str_nat (length ahead) @ '' commits ahead'' else [])
              @ branch_note)))"
    using kp_status_resolved[OF assms(1,2) st, of True] by simp
  show ?thesis
  proof (intro conjI impI)
    show "\<exists>branch_note. fst (kp_status B s path True BNone)
           = Inr (Detailed SUBMITTED (Some (
                (if length behind \<noteq> 0 then '' - '' @ str_nat (length behind) @ '' commits behind'' else [])
              @ (if length ahead \<noteq> 0 then '' - '' @ str_nat (length ahead) @ '' commits ahead'' else [])
              @ branch_note)))
           \<and> (branch_note = [] \<or> branch_note = '' [On branch: '' @ head_name b @ '']'')"
      using g nt by blast
  next
    assume "length ahead = 2 \<and> length behind = 0"
    then have "fst (kp_status B s path True BNone)
              = Inr (Detailed SUBMITTED (Some ('' - 2 commits ahead'' @ branch_note)))"
      using g by (simp add: str_nat_2)
    then show "\<exists>branch_note. fst (kp_status B s path True BNone)
                = Inr (Detailed SUBMITTED (Some ('' - 2 commits ahead'' @ branch_note)))
              \<and> (branch_note = [] \<or> branch_note = '' [On branch: '' @ head_name b @ '']'')"
      using nt by blast
  qed
qed

text \<open>The submitted post of the example repository, two commits ahead of its remote ref.\<close>

theorem submitted_annotation_witness:
  "\<exists>branch_note. fst (kp_status ex_binding ex_repo ''2020/report.kp'' True BNone)
       = Inr (Detailed SUBMITTED (Some ('' - 2 commits ahead'' @ branch_note)))
     \<and> (branch_note = [] \<or> branch_note = '' [On branch: 2020/report.kp]'')"
proof -
  have 1: "''2020/report.kp'' \<notin> set (case dir_cache ex_repo of None \<Rightarrow> published ex_repo | Some c \<Rightarrow> c)"
    by (simp add: ex_repo_def)
  have 2: "fst (git_branch_for_post ex_repo (Some ''2020/report.kp'') False [])
      = Inr (Some (Head ''2020/report.kp''))" by code_simp
  have 3: "head_name (Head ''2020/report.kp'') \<noteq> ''master''" by simp
  have 4: "git_remote ex_repo = Inr \<lparr>remote_name = ''origin'',
      remote_url = Some ''git@git.example.com:team/repo.git'',
      remote_refs = [(''origin/2020/report.kp'', ''c1''), (''origin/master'', ''c0'')]\<rparr>"
    by (simp add: git_remote_def ex_repo_def)
  have 5: "refs_find \<lparr>remote_name = ''origin'',
      remote_url = Some ''git@git.example.com:team/repo.git'',
      remote_refs = [(''origin/2020/report.kp'', ''c1''), (''origin/master'', ''c0'')]\<rparr>
      (head_name (Head ''2020/report.kp'')) = Some (''origin/2020/report.kp'', ''c1'')"
    by (simp add: refs_find_def)
  have 6: "iter_commits ex_repo (fst (''origin/2020/report.kp'', ''c1'') @ ''..'' @ head_name (Head ''2020/report.kp''))
      = Inr [''c3'', ''c2'']" by (simp add: ex_repo_def ex_commits_def)
  have 7: "iter_commits ex_repo (head_name (Head ''2020/report.kp'') @ ''..'' @ fst (''origin/2020/report.kp'', ''c1''))
      = Inr []" by (simp add: ex_repo_def ex_commits_def)
  have 8: "length [''c3'', ''c2''] = 2 \<and> length ([] :: string list) = 0" by simp
  show ?thesis
    using submitted_annotation[OF 1 2 3 4 5 6 7, of ex_binding, THEN conjunct2] 8 by simp
qed

text \<open>
  Claim C6 as stated fails on that post: the annotation starts with a space, so it is
  not \<open>"- 2 commits ahead"\<close>, whether \<open>!=\<close> compares the head object or its name with
  the path.
\<close>

theorem submitted_annotation_counterexample:
  "fst (kp_status ex_binding ex_repo ''2020/report.kp'' True BNone)
     \<noteq> Inr (Detailed SUBMITTED (Some ''- 2 commits ahead''))
   \<and> fst (kp_status ex_binding_by_name ex_repo ''2020/report.kp'' True BNone)
     = Inr (Detailed SUBMITTED (Some '' - 2 commits ahead''))"
  by code_simp

text \<open>
  Claim C10.  \<open>_kp_exists\<close> returns true whenever the disk has a directory at the
  path of the post under the repository, without looking at any branch; only when
  there is no such directory is the answer that of the branch resolution.  So for a
  directory that is neither published nor owned by a branch, \<open>_kp_exists\<close> says it
  exists while \<open>_kp_status\<close> finds no such post.
\<close>

theorem exists_on_disk:
  "(isdir (disk s) (cwd s) (os_path_join (repo_path s) [path]) \<longrightarrow> kp_exists s path = Inr True)
   \<and> (\<not> isdir (disk s) (cwd s) (os_path_join (repo_path s) [path]) \<longrightarrow>
        kp_exists s path
          = map_sum id (\<lambda>b. b \<noteq> None) (fst (git_branch_for_post s (Some path) False [])))
   \<and> (isdir (disk s) (cwd s) (os_path_join (repo_path s) [path])
        \<and> path \<notin> set (case dir_cache s of None \<Rightarrow> published s | Some c \<Rightarrow> c)
        \<and> fst (git_branch_for_post s (Some path) False []) = Inr None \<longrightarrow>
        kp_exists s path = Inr True
        \<and> fst (kp_status B s path detailed BNone)
             = Inr (Returned (ValueError (''No such post: '' @ path))))"
proof (intro conjI impI)
  assume "isdir (disk s) (cwd s) (os_path_join (repo_path s) [path])"
  then show "kp_exists s path = Inr True" by (simp add: kp_exists_def)
next
  assume "\<not> isdir (disk s) (cwd s) (os_path_join (repo_path s) [path])"
  then show "kp_exists s path
      = map_sum id (\<lambda>b. b \<noteq> None) (fst (git_branch_for_post s (Some path) False []))"
    by (simp add: kp_exists_def split: sum.splits)
next
  assume a: "isdir (disk s) (cwd s) (os_path_join (repo_path s) [path])
        \<and> path \<notin> set (case dir_cache s of None \<Rightarrow> published s | Some c \<Rightarrow> c)
        \<and> fst (git_branch_for_post s (Some path) False []) = Inr None"
  then show "kp_exists s path = Inr True" by (simp add: kp_exists_def)
  from a show "fst (kp_status B s path detailed BNone)
             = Inr (Returned (ValueError (''No such post: '' @ path)))"
    using kp_status_no_branch by blast
qed

text \<open>
  The untracked directory \<open>new/post.kp\<close> of the example repository exists for
  \<open>_kp_exists\<close> and is no post for \<open>_kp_status\<close>; \<open>missing.kp\<close>, which has no
  directory, does not exist.
\<close>

theorem exists_on_disk_witness:
  "kp_exists ex_repo ''new/post.kp'' = Inr True
   \<and> fst (kp_status ex_binding ex_repo ''new/post.kp'' False BNone)
        = Inr (Returned (ValueError ''No such post: new/post.kp''))
   \<and> kp_exists ex_repo ''missing.kp'' = Inr False"
proof -
  have 1: "isdir (disk ex_repo) (cwd ex_repo) (os_path_join (repo_path ex_repo) [''new/post.kp''])"
    by code_simp
  have 2: "''new/post.kp'' \<notin> set (case dir_cache ex_repo of None \<Rightarrow> published ex_repo | Some c \<Rightarrow> c)"
    by (simp add: ex_repo_def)
  have 3: "fst (git_branch_for_post ex_repo (Some ''new/post.kp'') False []) = Inr None"
    by code_simp
  have 4: "\<not> isdir (disk ex_repo) (cwd ex_repo) (os_path_join (repo_path ex_repo) [''missing.kp''])"
    by code_simp
  have 5: "fst (git_branch_for_post ex_repo (Some ''missing.kp'') False []) = Inr None"
    by code_simp
  show ?thesis
    using exists_on_disk[of ex_repo "''new/post.kp''" ex_binding False] 1 2 3
      exists_on_disk[of ex_repo "''missing.kp''" ex_binding False] 4 5
    by simp
qed

section \<open>Resolution of the branch of a post\<close>

lemma matching_branches_filter:
  "matching_branches s path bs = Inr found \<Longrightarrow> found = filter (touches s path) bs"
proof (induction bs arbitrary: found)
  case Nil
  then show ?case by simp
next
  case (Cons b bs)
  from Cons.prems obtain posts rest where
    p: "git_local_posts s [b] = Inr posts" and r: "matching_branches s path bs = Inr rest"
    and f: "found = (if path \<in> set posts then b # rest else rest)"
    by (auto simp del: git_local_posts.simps split: sum.splits)
  have "rest = filter (touches s path) bs" using Cons.IH r by blast
  moreover have "touches s path b = (path \<in> set posts)"
    using p by (simp add: touches_def del: git_local_posts.simps)
  ultimately show ?case using f by simp
qed

lemma git_local_posts_cong:
  "diff_a_paths s' = diff_a_paths s \<Longrightarrow> git_local_posts s' bs = git_local_posts s bs"
  by (induction bs) (auto split: sum.splits)

lemma matching_branches_cong:
  "diff_a_paths s' = diff_a_paths s \<Longrightarrow> matching_branches s' path bs = matching_branches s path bs"
  by (induction bs) (auto simp del: git_local_posts.simps simp: git_local_posts_cong[of s' s] split: sum.splits)

lemma git_branch_str_cong:
  "branches s' = branches s \<Longrightarrow> git_branch s' (BStr b) = git_branch s (BStr b)"
  by simp

lemma git_branch_for_post_cong:
  assumes "branch_no_merged s' = branch_no_merged s" "diff_a_paths s' = diff_a_paths s"
    "branches s' = branches s" "published s' = published s"
  shows "git_branch_for_post s' p i inp = git_branch_for_post s p i inp"
proof -
  have 1: "git_local_branches s' = git_local_branches s"
    using assms(1) by (simp add: git_local_branches_def)
  have 2: "matching_branches s' path bs = matching_branches s path bs" for path bs
    using assms(2) by (rule matching_branches_cong)
  have 3: "git_branch s' (BStr b) = git_branch s (BStr b)" for b
    using assms(3) by simp
  show ?thesis
    unfolding git_branch_for_post_def 1 2 3 assms(4) ..
qed

text \<open>
  Claim C9, as amended.  In non-interactive mode \<open>git_branch_for_post\<close> resolves a path
  that is itself in the list of unmerged branches to the branch of that name, whatever
  the branches touch.  For a path that names no unmerged branch and is touched by two
  or more of them, the branches found are those of the list that touch the post, in
  the order of the list, and the result is the first of them (the head of that name
  when it is a local head).  The result depends on nothing but the list of unmerged
  branches, the diffs, the local heads and the published paths: on two repository
  states that agree on these, the call gives the same result.
\<close>

theorem first_match_resolution:
  "(git_local_branches s = Inr local \<and> path \<in> set local \<longrightarrow>
      git_branch_for_post s (Some path) False inp = (map_sum id Some (git_branch s (BStr path)), inp))
   \<and> (git_local_branches s = Inr local \<and> path \<notin> set local
        \<and> matching_branches s path local = Inr found \<and> 2 \<le> length found \<longrightarrow>
        found = filter (touches s path) local
        \<and> git_branch_for_post s (Some path) False inp
             = (map_sum id Some (git_branch s (BStr (hd found))), inp)
        \<and> (hd found \<in> set (map fst (branches s)) \<longrightarrow>
             fst (git_branch_for_post s (Some path) False inp) = Inr (Some (Head (hd found)))))
   \<and> (branch_no_merged s' = branch_no_merged s \<and> diff_a_paths s' = diff_a_paths s
        \<and> branches s' = branches s \<and> published s' = published s \<longrightarrow>
        git_branch_for_post s' (Some path) False inp = git_branch_for_post s (Some path) False inp)"
proof (intro conjI impI)
  assume "git_local_branches s = Inr local \<and> path \<in> set local"
  then show "git_branch_for_post s (Some path) False inp = (map_sum id Some (git_branch s (BStr path)), inp)"
    by (simp add: git_branch_for_post_def)
next
  assume a: "git_local_branches s = Inr local \<and> path \<notin> set local
        \<and> matching_branches s path local = Inr found \<and> 2 \<le> length found"
  then show "found = filter (touches s path) local" using matching_branches_filter by blast
  from a have ne: "found \<noteq> []" by auto
  then have hd: "found ! 0 = hd found" by (simp add: hd_conv_nth)
  from a have l: "git_local_branches s = Inr local" and n: "path \<notin> set local"
    and m: "matching_branches s path local = Inr found"
    and len: "length found \<noteq> 0" "length found \<noteq> 1" by auto
  show r: "git_branch_for_post s (Some path) False inp
             = (map_sum id Some (git_branch s (BStr (hd found))), inp)"
    unfolding git_branch_for_post_def using l n m len by (simp add: hd)
  assume "hd found \<in> set (map fst (branches s))"
  then show "fst (git_branch_for_post s (Some path) False inp) = Inr (Some (Head (hd found)))"
    using r by simp
next
  assume "branch_no_merged s' = branch_no_merged s \<and> diff_a_paths s' = diff_a_paths s
        \<and> branches s' = branches s \<and> published s' = published s"
  then show "git_branch_for_post s' (Some path) False inp = git_branch_for_post s (Some path) False inp"
    using git_branch_for_post_cong by blast
qed

text \<open>
  In the example repository both unmerged branches touch \<open>shared/notes.kp\<close>, which
  resolves to the first of them, also after the active branch and the cache have
  changed; the path \<open>2019/fixes\<close> resolves to the branch it names.
\<close>

theorem first_match_resolution_witness:
  "git_local_branches ex_repo = Inr [''2019/fixes'', ''2020/report.kp'']
   \<and> filter (touches ex_repo ''shared/notes.kp'') [''2019/fixes'', ''2020/report.kp'']
        = [''2019/fixes'', ''2020/report.kp'']
   \<and> fst (git_branch_for_post ex_repo (Some ''shared/notes.kp'') False []) = Inr (Some (Head ''2019/fixes''))
   \<and> git_branch_for_post (ex_repo\<lparr>active_branch := ''2019/fixes'', dir_cache := Some []\<rparr>)
        (Some ''shared/notes.kp'') False []
       = git_branch_for_post ex_repo (Some ''shared/notes.kp'') False []
   \<and> fst (git_branch_for_post ex_repo (Some ''2019/fixes'') False []) = Inr (Some (Head ''2019/fixes''))"
proof -
  have 1: "git_local_branches ex_repo = Inr [''2019/fixes'', ''2020/report.kp'']" by code_simp
  have 2: "''shared/notes.kp'' \<notin> set [''2019/fixes'', ''2020/report.kp'']" by simp
  have 3: "matching_branches ex_repo ''shared/notes.kp'' [''2019/fixes'', ''2020/report.kp'']
      = Inr [''2019/fixes'', ''2020/report.kp'']" by code_simp
  have 4: "2 \<le> length [''2019/fixes'', ''2020/report.kp'']" by simp
  have 5: "hd [''2019/fixes'', ''2020/report.kp''] \<in> set (map fst (branches ex_repo))"
    by (simp add: ex_repo_def)
  have 6: "''2019/fixes'' \<in> set [''2019/fixes'', ''2020/report.kp'']" by simp
  have 7: "git_branch ex_repo (BStr ''2019/fixes'') = Inr (Head ''2019/fixes'')"
    by (simp add: ex_repo_def)
  note t = first_match_resolution[of ex_repo "[''2019/fixes'', ''2020/report.kp'']" _ "[]"
      "[''2019/fixes'', ''2020/report.kp'']"
      "ex_repo\<lparr>active_branch := ''2019/fixes'', dir_cache := Some []\<rparr>"]
  show ?thesis
    using t[of "''shared/notes.kp''"] t[of "''2019/fixes''"] 1 2 3 4 5 6 7
    by simp
qed

text \<open>
  Claim C9 as stated fails: both unmerged branches of the example repository touch
  \<open>2020/report.kp\<close>, the first of them in the list is \<open>2019/fixes\<close>, and the post
  resolves to the branch \<open>2020/report.kp\<close>, which its path names.
\<close>

theorem first_match_resolution_counterexample:
  "git_local_branches ex_repo = Inr [''2019/fixes'', ''2020/report.kp'']
   \<and> matching_branches ex_repo ''2020/report.kp'' [''2019/fixes'', ''2020/report.kp'']
        = Inr [''2019/fixes'', ''2020/report.kp'']
   \<and> fst (git_branch_for_post ex_repo (Some ''2020/report.kp'') False []) = Inr (Some (Head ''2020/report.kp''))
   \<and> fst (git_branch_for_post ex_repo (Some ''2020/report.kp'') False []) \<noteq> Inr (Some (Head ''2019/fixes''))"
  by code_simp

section \<open>Submission\<close>

lemma submit_resolved:
  assumes "remotes s \<noteq> []" "\<not> (branch = BNone \<and> path = None)"
    and "(if branch = BNone then fst (git_branch_for_post s path False [])
          else Inr (Some (Head (desc_name branch)))) = res"
  shows "submit B s path branch force =
     (case res of
        Inl e \<Rightarrow> (Inl e, s)
      | Inr None \<Rightarrow>
          (Inl (ValueError (''It does not appear that you have any drafts in progress for '' @ [CHR 0x27]
                  @ format_opt path @ [CHR 0x27] @ ''.'')), s)
      | Inr (Some b) \<Rightarrow>
         (case remote_available B s of
            Inl e \<Rightarrow> (Inl e, s)
          | Inr False \<Rightarrow>
             (case remote_uri s of
                Inl e \<Rightarrow> (Inl e, s)
              | Inr u \<Rightarrow>
                 (Inl (RuntimeError (''Cannot connect to remote repository '' @ format_opt u
                         @ ''. Please check your connection, and then try again.'')), s))
          | Inr True \<Rightarrow>
             (case git_remote s of
                Inl e \<Rightarrow> (Inl e, s)
              | Inr r \<Rightarrow> (Inr (), s\<lparr>pushed := pushed s @ [(head_name b, force)]\<rparr>))))"
  unfolding submit_def using assms(1,2) by (simp only: assms(3) length_0_conv if_False)


lemma submit_outcome:
  "(snd (submit B s path branch force) = s \<and> (\<exists>e. fst (submit B s path branch force) = Inl e))
   \<or> (fst (submit B s path branch force) = Inr () \<and> remote_available B s = Inr True
       \<and> (\<exists>b. snd (submit B s path branch force) = s\<lparr>pushed := pushed s @ [(b, force)]\<rparr>))"
proof (cases "remotes s = []")
  case True
  then show ?thesis by (simp add: submit_def)
next
  case ne: False
  show ?thesis
  proof (cases "branch = BNone \<and> path = None")
    case True
    then show ?thesis using ne by (simp add: submit_def)
  next
    case np: False
    define res where "res = (if branch = BNone then fst (git_branch_for_post s path False [])
          else Inr (Some (Head (desc_name branch))))"
    note u = submit_resolved[OF ne np res_def[symmetric], of B force]
    show ?thesis
    proof (cases res)
      case (Inl e)
      then show ?thesis using u by simp
    next
      case (Inr ob)
      show ?thesis
      proof (cases ob)
        case None
        then show ?thesis using u Inr by simp
      next
        case (Some b)
        show ?thesis
        proof (cases "remote_available B s")
          case (Inl e)
          then show ?thesis using u Inr Some by simp
        next
          case ra: (Inr ok)
          show ?thesis
          proof (cases ok)
            case True
            show ?thesis
            proof (cases "git_remote s")
              case (Inl e)
              then show ?thesis using u Inr Some ra True by simp
            next
              case r: (Inr rm)
              have "submit B s path branch force = (Inr (), s\<lparr>pushed := pushed s @ [(head_name b, force)]\<rparr>)"
                using u Inr Some ra True r by simp
              then show ?thesis using ra True by auto
            qed
          next
            case False
            show ?thesis
            proof (cases "remote_uri s")
              case (Inl e)
              then show ?thesis using u Inr Some ra False by simp
            next
              case (Inr ur)
              then show ?thesis using u \<open>res = Inr ob\<close> Some ra False by simp
            qed
          qed
        qed
      qed
    qed
  qed
qed

lemma unreachable_host:
  assumes "git_remote s = Inr r" "remote_url r = Some u" "ssh_host u = Some host" "host \<noteq> []"
    "\<not> connect B host"
  shows "remote_uri s = Inr (Some u) \<and> remote_available B s = Inr False"
proof -
  have "u \<noteq> []" using assms(3) by (auto simp: ssh_host_def Let_def split: if_splits)
  then show ?thesis using assms
    by (simp add: remote_uri_def remote_host_def remote_available_def)
qed

text \<open>
  Claim C4, as amended.  \<open>_submit\<close> checks in this order: without remotes it fails
  with the error of no remote, whatever the other arguments; with remotes and neither
  path nor branch it fails with the error of the missing target; with a path that
  resolves to no branch it fails with the error of no draft; with a target and a
  remote \<open>origin\<close> whose address has the form \<open>user@host:path\<close> and whose host
  does not accept the connection it fails with the error of the unreachable remote.
  Whenever it fails, the repository is left as it was: nothing is pushed and no head
  moves.  When it returns, the remote counted as reachable, exactly one push was
  recorded and the local heads are unchanged.
\<close>

theorem submit_preconditions:
  "(remotes s = [] \<longrightarrow>
      submit B s path branch force
        = (Inl (RuntimeError ''No remote repositories exist into which this branch can be submitted.''), s))
   \<and> (remotes s \<noteq> [] \<and> branch = BNone \<and> path = None \<longrightarrow>
      submit B s path branch force
        = (Inl (ValueError ''To submit a knowledge post, a path to the post and/or a git branch must be specified.''), s))
   \<and> (remotes s \<noteq> [] \<and> branch = BNone \<and> path = Some p
        \<and> fst (git_branch_for_post s (Some p) False []) = Inr None \<longrightarrow>
      submit B s path branch force
        = (Inl (ValueError (''It does not appear that you have any drafts in progress for ''
                  @ [CHR 0x27] @ p @ [CHR 0x27] @ ''.'')), s))
   \<and> (remotes s \<noteq> []
        \<and> (branch \<noteq> BNone \<or> (path = Some p \<and> fst (git_branch_for_post s (Some p) False []) = Inr (Some b)))
        \<and> git_remote s = Inr r \<and> remote_url r = Some u \<and> ssh_host u = Some host \<and> host \<noteq> []
        \<and> \<not> connect B host \<longrightarrow>
      submit B s path branch force
        = (Inl (RuntimeError (''Cannot connect to remote repository '' @ u
                  @ ''. Please check your connection, and then try again.'')), s))
   \<and> (fst (submit B s path branch force) = Inl e \<longrightarrow> snd (submit B s path branch force) = s)
   \<and> (fst (submit B s path branch force) = Inr () \<longrightarrow>
        remote_available B s = Inr True
        \<and> branches (snd (submit B s path branch force)) = branches s
        \<and> (\<exists>pushed_branch. pushed (snd (submit B s path branch force))
              = pushed s @ [(pushed_branch, force)]))"
proof (intro conjI impI)
  assume "remotes s = []"
  then show "submit B s path branch force
        = (Inl (RuntimeError ''No remote repositories exist into which this branch can be submitted.''), s)"
    by (simp add: submit_def)
next
  assume "remotes s \<noteq> [] \<and> branch = BNone \<and> path = None"
  then show "submit B s path branch force
        = (Inl (ValueError ''To submit a knowledge post, a path to the post and/or a git branch must be specified.''), s)"
    by (simp add: submit_def)
next
  assume a: "remotes s \<noteq> [] \<and> branch = BNone \<and> path = Some p
        \<and> fst (git_branch_for_post s (Some p) False []) = Inr None"
  then have res: "(if branch = BNone then fst (git_branch_for_post s path False [])
          else Inr (Some (Head (desc_name branch)))) = Inr None" by simp
  from a have ne: "remotes s \<noteq> []" and np: "\<not> (branch = BNone \<and> path = None)" by auto
  show "submit B s path branch force
        = (Inl (ValueError (''It does not appear that you have any drafts in progress for ''
                  @ [CHR 0x27] @ p @ [CHR 0x27] @ ''.'')), s)"
    using submit_resolved[OF ne np res, of B force] a by (simp add: format_opt_def)
next
  assume a: "remotes s \<noteq> []
        \<and> (branch \<noteq> BNone \<or> (path = Some p \<and> fst (git_branch_for_post s (Some p) False []) = Inr (Some b)))
        \<and> git_remote s = Inr r \<and> remote_url r = Some u \<and> ssh_host u = Some host \<and> host \<noteq> []
        \<and> \<not> connect B host"
  then have un: "remote_uri s = Inr (Some u)" "remote_available B s = Inr False"
    using unreachable_host by blast+
  from a have "\<exists>h. (if branch = BNone then fst (git_branch_for_post s path False [])
               else Inr (Some (Head (desc_name branch)))) = Inr (Some h)"
    by (cases "branch = BNone") simp_all
  then obtain h where h: "(if branch = BNone then fst (git_branch_for_post s path False [])
               else Inr (Some (Head (desc_name branch)))) = Inr (Some h)" by blast
  from a have ne: "remotes s \<noteq> []" and np: "\<not> (branch = BNone \<and> path = None)" by auto
  show "submit B s path branch force
        = (Inl (RuntimeError (''Cannot connect to remote repository '' @ u
                  @ ''. Please check your connection, and then try again.'')), s)"
    using submit_resolved[OF ne np h, of B force] un by (simp add: format_opt_def)
next
  assume "fst (submit B s path branch force) = Inl e"
  then show "snd (submit B s path branch force) = s"
    using submit_outcome[of B s path branch force] by auto
next
  assume a: "fst (submit B s path branch force) = Inr ()"
  then have o: "remote_available B s = Inr True
       \<and> (\<exists>b. snd (submit B s path branch force) = s\<lparr>pushed := pushed s @ [(b, force)]\<rparr>)"
    using submit_outcome[of B s path branch force] by auto
  then show "remote_available B s = Inr True" by blast
  from o obtain pb where pb: "snd (submit B s path branch force) = s\<lparr>pushed := pushed s @ [(pb, force)]\<rparr>"
    by blast
  then show "branches (snd (submit B s path branch force)) = branches s" by simp
  from pb show "\<exists>pushed_branch. pushed (snd (submit B s path branch force))
              = pushed s @ [(pushed_branch, force)]" by simp
qed


text \<open>
  The four failures on the example repository (whose host does not answer), each
  leaving the repository as it was, and a submission that goes through.
\<close>

theorem submit_preconditions_witness:
  "submit ex_binding ex_repo_no_remote (Some ''2020/report.kp'') BNone False
     = (Inl (RuntimeError ''No remote repositories exist into which this branch can be submitted.''),
        ex_repo_no_remote)
   \<and> submit ex_binding ex_repo None BNone False
     = (Inl (ValueError ''To submit a knowledge post, a path to the post and/or a git branch must be specified.''),
        ex_repo)
   \<and> submit ex_binding ex_repo (Some ''missing.kp'') BNone False
     = (Inl (ValueError ''It does not appear that you have any drafts in progress for 'missing.kp'.''),
        ex_repo)
   \<and> submit ex_binding ex_repo (Some ''2020/report.kp'') BNone False
     = (Inl (RuntimeError ''Cannot connect to remote repository git@git.example.com:team/repo.git. Please check your connection, and then try again.''),
        ex_repo)
   \<and> snd (submit ex_binding ex_repo (Some ''2020/report.kp'') BNone False) = ex_repo
   \<and> branches (snd (submit ex_binding ex_repo_https (Some ''2020/report.kp'') BNone True))
        = branches ex_repo_https
   \<and> remote_available ex_binding ex_repo_https = Inr True"
proof -
  have r0: "remotes ex_repo_no_remote = []" by (simp add: ex_repo_no_remote_def)
  have r1: "remotes ex_repo \<noteq> []" by (simp add: ex_repo_def)
  have m: "fst (git_branch_for_post ex_repo (Some ''missing.kp'') False []) = Inr None" by code_simp
  have d: "fst (git_branch_for_post ex_repo (Some ''2020/report.kp'') False [])
      = Inr (Some (Head ''2020/report.kp''))" by code_simp
  define rm where "rm = \<lparr>remote_name = ''origin'',
      remote_url = Some ''git@git.example.com:team/repo.git'',
      remote_refs = [(''origin/2020/report.kp'', ''c1''), (''origin/master'', ''c0'')]\<rparr>"
  have g: "git_remote ex_repo = Inr rm"
    by (simp add: git_remote_def ex_repo_def rm_def)
  have ur: "remote_url rm = Some ''git@git.example.com:team/repo.git''" by (simp add: rm_def)
  have h: "ssh_host ''git@git.example.com:team/repo.git'' = Some ''git.example.com''"
    by (simp add: ssh_host_def)
  have hn: "''git.example.com'' \<noteq> []" by simp
  have c: "\<not> connect ex_binding ''git.example.com''" by (simp add: ex_binding_def)
  have ok: "fst (submit ex_binding ex_repo_https (Some ''2020/report.kp'') BNone True) = Inr ()"
    by code_simp
  have 1: "submit ex_binding ex_repo_no_remote (Some ''2020/report.kp'') BNone False
     = (Inl (RuntimeError ''No remote repositories exist into which this branch can be submitted.''),
        ex_repo_no_remote)"
    using submit_preconditions[where s = ex_repo_no_remote and B = ex_binding
        and path = "Some ''2020/report.kp''" and branch = BNone and force = False, THEN conjunct1] r0
    by (rule mp)
  have 2: "submit ex_binding ex_repo None BNone False
     = (Inl (ValueError ''To submit a knowledge post, a path to the post and/or a git branch must be specified.''),
        ex_repo)"
    using submit_preconditions[where s = ex_repo and B = ex_binding
        and path = None and branch = BNone and force = False, THEN conjunct2, THEN conjunct1] r1
    by simp
  have 3: "submit ex_binding ex_repo (Some ''missing.kp'') BNone False
     = (Inl (ValueError (''It does not appear that you have any drafts in progress for ''
                  @ [CHR 0x27] @ ''missing.kp'' @ [CHR 0x27] @ ''.'')), ex_repo)"
    using submit_preconditions[where s = ex_repo and B = ex_binding
        and path = "Some ''missing.kp''" and branch = BNone and force = False and p = "''missing.kp''",
        THEN conjunct2, THEN conjunct2, THEN conjunct1] r1 m
    by simp
  have 4: "submit ex_binding ex_repo (Some ''2020/report.kp'') BNone False
     = (Inl (RuntimeError (''Cannot connect to remote repository '' @ ''git@git.example.com:team/repo.git''
                  @ ''. Please check your connection, and then try again.'')), ex_repo)"
    using submit_preconditions[where s = ex_repo and B = ex_binding
        and path = "Some ''2020/report.kp''" and branch = BNone and force = False
        and p = "''2020/report.kp''" and b = "Head ''2020/report.kp''" and r = rm
        and u = "''git@git.example.com:team/repo.git''" and host = "''git.example.com''",
        THEN conjunct2, THEN conjunct2, THEN conjunct2, THEN conjunct1] r1 d g ur h hn c
    by simp
  have 5: "snd (submit ex_binding ex_repo (Some ''2020/report.kp'') BNone False) = ex_repo"
    using 4 by simp
  have 6: "remote_available ex_binding ex_repo_https = Inr True
        \<and> branches (snd (submit ex_binding ex_repo_https (Some ''2020/report.kp'') BNone True))
        = branches ex_repo_https"
    using submit_preconditions[where s = ex_repo_https and B = ex_binding
        and path = "Some ''2020/report.kp''" and branch = BNone and force = True,
        THEN conjunct2, THEN conjunct2, THEN conjunct2, THEN conjunct2, THEN conjunct2] ok
    by simp
  show ?thesis using 1 2 3 4 5 6 by simp
qed

text \<open>
  Claim C4 as stated fails: no host answers, the remote of the example repository has
  an HTTPS address, from which no host is read, so the remote counts as reachable and
  the branch is pushed.
\<close>

theorem submit_preconditions_counterexample:
  "remote_url (hd (remotes ex_repo_https)) = Some ''https://git.example.com/team/repo.git''
   \<and> \<not> connect ex_binding ''git.example.com''
   \<and> remote_available ex_binding ex_repo_https = Inr True
   \<and> fst (submit ex_binding ex_repo_https (Some ''2020/report.kp'') BNone False) = Inr ()
   \<and> pushed (snd (submit ex_binding ex_repo_https (Some ''2020/report.kp'') BNone False))
        = [(''2020/report.kp'', False)]"
  by code_simp

section \<open>Preparing a post\<close>









section \<open>Bootstrap of a repository\<close>

lemma walk_shrink:
  "(\<And>k. is_dir fs2 k \<Longrightarrow> is_dir fs1 k) \<Longrightarrow> walk fs2 k0 cs = None \<or> walk fs2 k0 cs = walk fs1 k0 cs"
  by (induction cs arbitrary: k0) auto

lemma rmtree_removes:
  assumes "namei fs1 wd p = Some k" "k \<noteq> []" "fs1 k = Some Dir"
  shows "\<exists>fs2. rmtree fs1 wd p = Inr fs2 \<and> \<not> path_exists fs2 wd p \<and> (\<forall>below. fs2 (k @ below) = None)"
proof -
  define fs2 where "fs2 = (\<lambda>k'. if take (length k) k' = k then None else fs1 k')"
  have r: "rmtree fs1 wd p = Inr fs2"
    using assms by (simp add: rmtree_def is_dir_def fs2_def)
  have sub: "is_dir fs2 k' \<Longrightarrow> is_dir fs1 k'" for k'
    by (auto simp: is_dir_def fs2_def split: if_splits)
  have "namei fs2 wd p = None \<or> namei fs2 wd p = namei fs1 wd p"
    unfolding namei_def using sub by (rule walk_shrink)
  moreover have "fs2 k = None" by (simp add: fs2_def)
  ultimately have "\<not> path_exists fs2 wd p"
    using assms(1,2) by (auto simp: path_exists_def)
  moreover have "fs2 (k @ below) = None" for below by (simp add: fs2_def)
  ultimately show ?thesis using r by blast
qed

text \<open>
  The clean-up where it works: when a statement of the bootstrap raises an
  \<open>Exception\<close> and the path is a directory by then, the directory is removed with
  everything below it and the same exception is raised again.
\<close>

lemma repo_init_cleanup:
  assumes "run_steps (bootstrap_steps B) p fs = (Some e, fs1)" "is_Exception e"
    and "namei fs1 wd p = Some k" "k \<noteq> []" "fs1 k = Some Dir"
  shows "fst (repo_init B wd p fs) = Some e \<and> \<not> path_exists (snd (repo_init B wd p fs)) wd p"
proof -
  obtain fs2 where "rmtree fs1 wd p = Inr fs2" "\<not> path_exists fs2 wd p"
    using rmtree_removes[OF assms(3-5)] by blast
  then show ?thesis using assms(1,2) by (simp add: repo_init_def)
qed

text \<open>
  Claim C3 fails on the code, at a path \<open>/srv/kr\<close> that does not exist.  When the
  first statement of the bootstrap is refused before it creates the directory, the
  removal of the path raises its own error, and that error is raised in place of the
  original one.  When the update of the submodule is interrupted from the keyboard,
  the interrupt is no \<open>Exception\<close>: nothing is removed and the directory stays.
  (When attaching the submodule fails with a git error, the directory is removed and
  the error raised again.)
\<close>

theorem bootstrap_failure_evaluated:
  "\<not> path_exists (disk ex_new_repo) (cwd ex_new_repo) ''/srv/kr''
   \<and> fst (repo_init_step ex_binding_init_fails ''/srv/kr'' (disk ex_new_repo)) = Some (OSError ''EACCES'')
   \<and> fst (open_or_init ex_binding_init_fails ex_new_repo True) = Inl (OSError ''ENOENT'')
   \<and> fst (open_or_init ex_binding_interrupted ex_new_repo True) = Inl KeyboardInterrupt
   \<and> path_exists (disk (snd (open_or_init ex_binding_interrupted ex_new_repo True))) ''/'' ''/srv/kr''
   \<and> fst (open_or_init ex_binding_submodule_fails ex_new_repo True) = Inl GitCommandError
   \<and> \<not> path_exists (disk (snd (open_or_init ex_binding_submodule_fails ex_new_repo True))) ''/'' ''/srv/kr''"
  by code_simp

end
